theory Spec2Isabelle
  imports Main "HOL-Library.AList"
begin

unbundle bit_operations_syntax

section \<open>Data model\<close>

text \<open>
  The peer life-cycle simulators of \<^verbatim>\<open>src/peer_lifecycle\<close>. Python integers are
  unbounded, so peer ids, rounds and limits are \<^typ>\<open>int\<close>. A Python \<^verbatim>\<open>dict\<close>
  keeps insertion order and the code iterates over it, so a dict is an association
  list: a new key goes to the end, an existing key is overwritten in place
  (\<^const>\<open>AList.update\<close>), \<^verbatim>\<open>del d[k]\<close> is \<^const>\<open>AList.delete\<close>.
\<close>

datatype PeerState = CONNECTED | PROSPECT | PENDING | IDENTIFIED

record PeerInfo =
  state :: PeerState
  last_heard_from :: int

text \<open>The gradient simulator's \<^verbatim>\<open>PeerInfo\<close> has one more field.\<close>

record GradientPeerInfo = PeerInfo +
  distance_class :: int

record Invite =
  sender_id :: int
  round_sent :: int

text \<open>
  \<^verbatim>\<open>class Peer\<close> of \<^verbatim>\<open>peer_lifecycle_simulator_fixed.py\<close>; the type of the
  stored info is a parameter so that the gradient peer, whose methods of the same
  name have the same body, shares the definitions.
\<close>

record 'i Peer =
  peer_id :: int
  max_connections :: int
  known_peers :: "(int \<times> 'i) list"
  pending_invites :: "Invite list"

datatype error = ValueError | NoReturn

text \<open>
  Dicts of lists: \<^verbatim>\<open>d.get(key, [])\<close> (also the read of a \<^verbatim>\<open>defaultdict(list)\<close>), and
  \<^verbatim>\<open>d[key].append(v)\<close>, which for a \<^verbatim>\<open>defaultdict\<close> creates a missing key.
\<close>

definition get_list :: "('k \<times> 'v list) list \<Rightarrow> 'k \<Rightarrow> 'v list" where
  "get_list d key = (case map_of d key of None \<Rightarrow> [] | Some l \<Rightarrow> l)"

definition append_to :: "'k \<Rightarrow> 'v \<Rightarrow> ('k \<times> 'v list) list \<Rightarrow> ('k \<times> 'v list) list" where
  "append_to key v d = AList.update key (get_list d key @ [v]) d"

section \<open>Distance metrics\<close>

text \<open>\<^verbatim>\<open>Peer._xor_distance\<close>: \<^verbatim>\<open>peer1_id ^ peer2_id\<close>.\<close>

definition xor_distance :: "int \<Rightarrow> int \<Rightarrow> int" where
  "xor_distance peer1_id peer2_id = peer1_id XOR peer2_id"

text \<open>
  \<^verbatim>\<open>GradientPeer._ring_distance\<close>; the first argument is the peer's
  \<^verbatim>\<open>address_space_size\<close>.
\<close>

definition ring_distance :: "int \<Rightarrow> int \<Rightarrow> int \<Rightarrow> int" where
  "ring_distance address_space_size peer1_id peer2_id =
     (let direct_distance = \<bar>peer1_id - peer2_id\<bar>;
          wrap_distance = address_space_size - direct_distance
      in min direct_distance wrap_distance)"

section \<open>The peer of the fixed simulator\<close>

text \<open>\<^verbatim>\<open>Peer.__init__\<close>.\<close>

definition Peer_init :: "int \<Rightarrow> int \<Rightarrow> PeerInfo Peer" where
  "Peer_init pid max_conn =
     \<lparr>peer_id = pid, max_connections = max_conn, known_peers = [], pending_invites = []\<rparr>"

text \<open>\<^verbatim>\<open>Peer.add_peer\<close>: \<^verbatim>\<open>self.known_peers[peer_id] = PeerInfo(state, last_heard_from)\<close>.\<close>

definition add_peer ::
  "(PeerInfo, 'b) Peer_scheme \<Rightarrow> int \<Rightarrow> PeerState \<Rightarrow> int \<Rightarrow> (PeerInfo, 'b) Peer_scheme" where
  "add_peer self pid st heard =
     self\<lparr>known_peers := AList.update pid \<lparr>state = st, last_heard_from = heard\<rparr> (known_peers self)\<rparr>"

text \<open>\<^verbatim>\<open>get_peer_state\<close>: \<^verbatim>\<open>None\<close> for an unknown peer.\<close>

definition get_peer_state ::
  "('a PeerInfo_scheme, 'b) Peer_scheme \<Rightarrow> int \<Rightarrow> PeerState option" where
  "get_peer_state self pid =
     (case map_of (known_peers self) pid of None \<Rightarrow> None | Some peer_info \<Rightarrow> Some (state peer_info))"

text \<open>
  \<^verbatim>\<open>Peer.set_peer_state\<close>: a known peer keeps its record, whose round is
  overwritten only by a round \<open>\<ge> 0\<close>; an unknown peer gets a new record.
\<close>

definition set_peer_state ::
  "(PeerInfo, 'b) Peer_scheme \<Rightarrow> int \<Rightarrow> PeerState \<Rightarrow> int \<Rightarrow> (PeerInfo, 'b) Peer_scheme" where
  "set_peer_state self pid st round_num =
     (case map_of (known_peers self) pid of
        Some peer_info \<Rightarrow>
          self\<lparr>known_peers := AList.update pid
                 (if round_num \<ge> 0 then peer_info\<lparr>state := st, last_heard_from := round_num\<rparr>
                  else peer_info\<lparr>state := st\<rparr>)
                 (known_peers self)\<rparr>
      | None \<Rightarrow>
          self\<lparr>known_peers := AList.update pid \<lparr>state = st, last_heard_from = round_num\<rparr>
                 (known_peers self)\<rparr>)"

text \<open>\<^verbatim>\<open>update_last_heard_from\<close>: only for a known peer, any round.\<close>

definition update_last_heard_from ::
  "('a PeerInfo_scheme, 'b) Peer_scheme \<Rightarrow> int \<Rightarrow> int \<Rightarrow> ('a PeerInfo_scheme, 'b) Peer_scheme" where
  "update_last_heard_from self pid round_num =
     (case map_of (known_peers self) pid of
        Some peer_info \<Rightarrow>
          self\<lparr>known_peers := AList.update pid (peer_info\<lparr>last_heard_from := round_num\<rparr>)
                 (known_peers self)\<rparr>
      | None \<Rightarrow> self)"

definition get_peers_by_state ::
  "('a PeerInfo_scheme, 'b) Peer_scheme \<Rightarrow> PeerState \<Rightarrow> int list" where
  "get_peers_by_state self st =
     map fst (filter (\<lambda>(pid, peer_info). state peer_info = st) (known_peers self))"

definition get_connected_peers :: "('a PeerInfo_scheme, 'b) Peer_scheme \<Rightarrow> int list" where
  "get_connected_peers self = get_peers_by_state self CONNECTED"

definition get_all_known_peers :: "('a PeerInfo_scheme, 'b) Peer_scheme \<Rightarrow> int list" where
  "get_all_known_peers self = map fst (known_peers self)"

text \<open>\<^verbatim>\<open>receive_invite\<close>: the invite is appended to the inbox.\<close>

definition receive_invite ::
  "('i, 'b) Peer_scheme \<Rightarrow> Invite \<Rightarrow> ('i, 'b) Peer_scheme" where
  "receive_invite self invite = self\<lparr>pending_invites := pending_invites self @ [invite]\<rparr>"

text \<open>
  The body of the loop of \<^verbatim>\<open>Peer.process_invites\<close> for one invite: the new peer
  and the entry appended to \<^verbatim>\<open>state_changes\<close>, if any. A sender in state
  Prospect matches no branch.
\<close>

definition process_invite ::
  "(PeerInfo, 'b) Peer_scheme \<Rightarrow> int \<Rightarrow> Invite
     \<Rightarrow> (PeerInfo, 'b) Peer_scheme \<times> (int \<times> PeerState) list" where
  "process_invite self round_num invite =
     (let sender_state = get_peer_state self (sender_id invite) in
      if sender_state = Some PENDING then
        (set_peer_state self (sender_id invite) CONNECTED round_num, [(sender_id invite, CONNECTED)])
      else if sender_state = Some IDENTIFIED then
        (set_peer_state self (sender_id invite) PROSPECT round_num, [(sender_id invite, PROSPECT)])
      else if sender_state = Some CONNECTED then
        (update_last_heard_from self (sender_id invite) round_num, [(sender_id invite, CONNECTED)])
      else if sender_state = None then
        (set_peer_state self (sender_id invite) PROSPECT round_num, [(sender_id invite, PROSPECT)])
      else (self, []))"

fun process_invites_loop ::
  "(PeerInfo, 'b) Peer_scheme \<Rightarrow> int \<Rightarrow> Invite list \<Rightarrow> (int \<times> PeerState) list
     \<Rightarrow> (PeerInfo, 'b) Peer_scheme \<times> (int \<times> PeerState) list" where
  "process_invites_loop self round_num [] state_changes = (self, state_changes)"
| "process_invites_loop self round_num (invite # rest) state_changes =
     (case process_invite self round_num invite of
        (self', change) \<Rightarrow> process_invites_loop self' round_num rest (state_changes @ change))"

text \<open>\<^verbatim>\<open>Peer.process_invites\<close>: every queued invite in order, then the inbox is cleared.\<close>

definition process_invites ::
  "(PeerInfo, 'b) Peer_scheme \<Rightarrow> int
     \<Rightarrow> (PeerInfo, 'b) Peer_scheme \<times> (int \<times> PeerState) list" where
  "process_invites self round_num =
     (case process_invites_loop self round_num (pending_invites self) [] of
        (self', state_changes) \<Rightarrow> (self'\<lparr>pending_invites := []\<rparr>, state_changes))"

section \<open>The peer of the gradient simulator\<close>

record GradientPeer = "GradientPeerInfo Peer" +
  address_space_bits :: int
  address_space_size :: int
  distance_classes :: "(int \<times> int list) list"
  max_distance_classes :: int
  distance_class_budgets :: "(int \<times> int) list"



text \<open>
  \<^verbatim>\<open>GradientPeer._calculate_distance_budgets\<close>: the loop over
  \<^verbatim>\<open>range(self.max_distance_classes)\<close>, left by \<^verbatim>\<open>break\<close> once the budget is used up;
  \<open>class_allocation\<close> is the \<^verbatim>\<open>allocation\<close> of one class.
\<close>

definition class_allocation :: "int \<Rightarrow> int \<Rightarrow> int" where
  "class_allocation dc remaining_budget =
     (if dc = 0 then max 1 (remaining_budget div 3)
      else max 1 (remaining_budget div 2 ^ nat dc))"

fun calculate_distance_budgets_loop ::
  "int list \<Rightarrow> (int \<times> int) list \<Rightarrow> int \<Rightarrow> (int \<times> int) list" where
  "calculate_distance_budgets_loop [] budgets remaining_budget = budgets"
| "calculate_distance_budgets_loop (dc # rest) budgets remaining_budget =
     (if max 0 (remaining_budget - class_allocation dc remaining_budget) = 0
      then AList.update dc (min (class_allocation dc remaining_budget) remaining_budget) budgets
      else calculate_distance_budgets_loop rest
             (AList.update dc (min (class_allocation dc remaining_budget) remaining_budget) budgets)
             (max 0 (remaining_budget - class_allocation dc remaining_budget)))"

definition calculate_distance_budgets :: "int \<Rightarrow> int \<Rightarrow> (int \<times> int) list" where
  "calculate_distance_budgets max_conn max_classes =
     calculate_distance_budgets_loop [0..max_classes - 1] [] (max_conn * 5)"

text \<open>
  \<^verbatim>\<open>GradientPeer.__init__\<close>. \<^verbatim>\<open>1 << address_space_bits\<close> raises ValueError for a
  negative count; \<^verbatim>\<open>int(math.log2(1 << bits)) + 1\<close> is \<open>bits + 1\<close>.
\<close>

definition GradientPeer_init :: "int \<Rightarrow> int \<Rightarrow> int \<Rightarrow> error + GradientPeer" where
  "GradientPeer_init pid max_conn bits =
     (if bits < 0 then Inl ValueError
      else Inr \<lparr>peer_id = pid, max_connections = max_conn, known_peers = [],
                pending_invites = [],
                address_space_bits = bits, address_space_size = 2 ^ nat bits,
                distance_classes = [], max_distance_classes = bits + 1,
                distance_class_budgets = calculate_distance_budgets max_conn (bits + 1)\<rparr>)"


text \<open>
  \<^verbatim>\<open>_update_distance_class_membership\<close>: the \<^verbatim>\<open>defaultdict\<close> of the Connected
  peers of each class, rebuilt in the order of \<^verbatim>\<open>known_peers\<close>.
\<close>

definition update_distance_class_membership :: "GradientPeer \<Rightarrow> GradientPeer" where
  "update_distance_class_membership self =
     self\<lparr>distance_classes :=
       foldl (\<lambda>dcs (pid, peer_info).
                if state peer_info = CONNECTED then append_to (distance_class peer_info) pid dcs
                else dcs)
             [] (known_peers self)\<rparr>"





section \<open>The simulators\<close>

text \<open>\<^verbatim>\<open>SimulationConfig\<close> (the field \<^verbatim>\<open>address_space_bits\<close> is \<open>config_address_space_bits\<close> here).\<close>

record SimulationConfig =
  connected_set_size :: int
  candidate_set_size :: int
  max_connections_per_peer :: int
  initial_identified_peers :: int
  simulation_rounds :: int
  config_address_space_bits :: int
  random_seed :: "int option"

text \<open>
  \<^verbatim>\<open>NetworkSimulator\<close> and \<^verbatim>\<open>GradientNetworkSimulator\<close> have the same fields; the
  type of the peers is a parameter. \<^verbatim>\<open>self.peers\<close> is the registry of all peers by
  id, in insertion order. The metrics object only reads the peers and is left out.
\<close>

record 'p NetworkSimulator =
  config :: SimulationConfig
  peers :: "(int \<times> 'p) list"
  connected_set :: "int set"
  candidate_set :: "int set"
  round_number :: int

text \<open>
  Python's \<^verbatim>\<open>min(xs, key=f)\<close> on a non-empty list: the first element with the
  least key. \<open>min_key_from\<close> is the scan with the best element so far.
\<close>

fun min_key_from :: "('a \<Rightarrow> int) \<Rightarrow> 'a \<Rightarrow> 'a list \<Rightarrow> 'a" where
  "min_key_from key best [] = best"
| "min_key_from key best (x # xs) =
     (if key x < key best then min_key_from key x xs else min_key_from key best xs)"

text \<open>\<^verbatim>\<open>min\<close> of an empty sequence raises ValueError: \<open>None\<close> here; the callers test for it first.\<close>

definition min_key :: "('a \<Rightarrow> int) \<Rightarrow> 'a list \<Rightarrow> 'a option" where
  "min_key key xs = (case xs of [] \<Rightarrow> None | x # rest \<Rightarrow> Some (min_key_from key x rest))"

text \<open>
  \<^verbatim>\<open>NetworkSimulator._recursive_search_with_hop_limit\<close>: the greedy walk. It stops
  at a node that is out of hops, not in the registry, has no Connected peer, or is
  at least as close to the target as its closest Connected peer.
\<close>

function recursive_search_with_hop_limit ::
  "(('a PeerInfo_scheme, 'b) Peer_scheme) NetworkSimulator \<Rightarrow> int \<Rightarrow> int \<Rightarrow> int \<Rightarrow> int" where
  "recursive_search_with_hop_limit sim start_peer_id target_id max_hops =
     (if max_hops \<le> 0 then start_peer_id
      else case map_of (peers sim) start_peer_id of
        None \<Rightarrow> start_peer_id
      | Some current_peer \<Rightarrow>
          (case min_key (\<lambda>pid. xor_distance pid target_id) (get_connected_peers current_peer) of
             None \<Rightarrow> start_peer_id
           | Some closest_connected \<Rightarrow>
               if xor_distance start_peer_id target_id \<le> xor_distance closest_connected target_id
               then start_peer_id
               else recursive_search_with_hop_limit sim closest_connected target_id (max_hops - 1)))"
  by pat_completeness auto
termination
  by (relation "measure (\<lambda>(sim, start_peer_id, target_id, max_hops). nat max_hops)") auto

declare recursive_search_with_hop_limit.simps [simp del]

text \<open>
  \<^verbatim>\<open>GradientNetworkSimulator._gradient_recursive_search\<close>: the same walk with the
  ring distance of the current peer.
\<close>

function gradient_recursive_search ::
  "GradientPeer NetworkSimulator \<Rightarrow> int \<Rightarrow> int \<Rightarrow> int \<Rightarrow> int" where
  "gradient_recursive_search sim start_peer_id target_id max_hops =
     (if max_hops \<le> 0 then start_peer_id
      else case map_of (peers sim) start_peer_id of
        None \<Rightarrow> start_peer_id
      | Some current_peer \<Rightarrow>
          (case min_key (\<lambda>pid. ring_distance (address_space_size current_peer) pid target_id)
                  (get_connected_peers current_peer) of
             None \<Rightarrow> start_peer_id
           | Some closest_connected \<Rightarrow>
               if ring_distance (address_space_size current_peer) start_peer_id target_id
                    \<le> ring_distance (address_space_size current_peer) closest_connected target_id
               then start_peer_id
               else gradient_recursive_search sim closest_connected target_id (max_hops - 1)))"
  by pat_completeness auto
termination
  by (relation "measure (\<lambda>(sim, start_peer_id, target_id, max_hops). nat max_hops)") auto

declare gradient_recursive_search.simps [simp del]

text \<open>
  One hop of a walk towards \<open>target_id\<close>: from a registered node to one of its
  Connected peers that is strictly closer to the target.
\<close>

definition xor_hop ::
  "(('a PeerInfo_scheme, 'b) Peer_scheme) NetworkSimulator \<Rightarrow> int \<Rightarrow> int \<Rightarrow> int \<Rightarrow> bool" where
  "xor_hop sim target_id a b =
     (case map_of (peers sim) a of
        None \<Rightarrow> False
      | Some current_peer \<Rightarrow>
          b \<in> set (get_connected_peers current_peer)
          \<and> xor_distance b target_id < xor_distance a target_id)"

definition ring_hop :: "GradientPeer NetworkSimulator \<Rightarrow> int \<Rightarrow> int \<Rightarrow> int \<Rightarrow> bool" where
  "ring_hop sim target_id a b =
     (case map_of (peers sim) a of
        None \<Rightarrow> False
      | Some current_peer \<Rightarrow>
          b \<in> set (get_connected_peers current_peer)
          \<and> ring_distance (address_space_size current_peer) b target_id
              < ring_distance (address_space_size current_peer) a target_id)"

section \<open>Example networks\<close>

definition example_config :: SimulationConfig where
  "example_config =
     \<lparr>connected_set_size = 3, candidate_set_size = 0, max_connections_per_peer = 2,
      initial_identified_peers = 1, simulation_rounds = 1, config_address_space_bits = 8,
      random_seed = None\<rparr>"

definition example_chain :: "(PeerInfo Peer) NetworkSimulator" where
  "example_chain =
     \<lparr>config = example_config,
      peers = [(3, add_peer (Peer_init 3 2) 2 CONNECTED 0),
               (2, add_peer (Peer_init 2 2) 1 CONNECTED 0),
               (1, Peer_init 1 2)],
      connected_set = {1, 2, 3}, candidate_set = {}, round_number = 0\<rparr>"

definition example_gradient_peer :: "int \<Rightarrow> (int \<times> GradientPeerInfo) list \<Rightarrow> GradientPeer" where
  "example_gradient_peer pid known =
     \<lparr>peer_id = pid, max_connections = 2, known_peers = known, pending_invites = [],
      address_space_bits = 8, address_space_size = 256, distance_classes = [],
      max_distance_classes = 9, distance_class_budgets = calculate_distance_budgets 2 9\<rparr>"

definition example_ring :: "GradientPeer NetworkSimulator" where
  "example_ring =
     \<lparr>config = example_config,
      peers = [(3, example_gradient_peer 3
                  [(1, \<lparr>state = CONNECTED, last_heard_from = 0, distance_class = 2\<rparr>)]),
               (1, example_gradient_peer 1 [])],
      connected_set = {1, 3}, candidate_set = {}, round_number = 0\<rparr>"

section \<open>The random generator\<close>

text \<open>
  The code draws from Python's process-wide generator. Here the generator is an
  explicit argument, returned by every function that draws: the list of the raw
  draws still to come; past its end every draw is 0. Each Python run reads
  finitely many draws, so each run is the model at some list.
\<close>

type_synonym rng = "nat list"

fun draw :: "rng \<Rightarrow> nat \<times> rng" where
  "draw [] = (0, [])"
| "draw (d # ds) = (d, ds)"

text \<open>
  \<^verbatim>\<open>random.sample(population, k)\<close>: \<open>k\<close> elements at distinct positions, in the
  order chosen; each draw picks one of the positions that are left. ValueError
  when \<open>k\<close> is negative or larger than the population.
\<close>

fun sample_loop :: "rng \<Rightarrow> 'a list \<Rightarrow> nat \<Rightarrow> 'a list \<times> rng" where
  "sample_loop g population 0 = ([], g)"
| "sample_loop g population (Suc k) =
     (if population = [] then ([], g)
      else case draw g of
        (d, g') \<Rightarrow>
          (case sample_loop g' (take (d mod length population) population
                                 @ drop (Suc (d mod length population)) population) k of
             (chosen, g'') \<Rightarrow> (population ! (d mod length population) # chosen, g'')))"

definition random_sample :: "rng \<Rightarrow> 'a list \<Rightarrow> int \<Rightarrow> error + 'a list \<times> rng" where
  "random_sample g population k =
     (if k < 0 \<or> int (length population) < k then Inl ValueError
      else Inr (sample_loop g population (nat k)))"

text \<open>\<^verbatim>\<open>random.randint(0, b)\<close>: ValueError on the empty range.\<close>

definition random_randint0 :: "rng \<Rightarrow> int \<Rightarrow> error + int \<times> rng" where
  "random_randint0 g b =
     (if b < 0 then Inl ValueError
      else case draw g of (d, g') \<Rightarrow> Inr (int d mod (b + 1), g'))"

section \<open>Eviction: uniform random\<close>

text \<open>\<^verbatim>\<open>for peer_id in to_remove: del self.known_peers[peer_id]\<close>.\<close>

definition delete_peers :: "int list \<Rightarrow> (int \<times> 'i) list \<Rightarrow> (int \<times> 'i) list" where
  "delete_peers to_remove known = fold AList.delete to_remove known"

text \<open>
  \<^verbatim>\<open>Peer.remove_excess_connections\<close>: the new peer, the removed ids and the
  generator.
\<close>

definition remove_excess_connections ::
  "rng \<Rightarrow> (PeerInfo, 'b) Peer_scheme \<Rightarrow> error + (PeerInfo, 'b) Peer_scheme \<times> int list \<times> rng" where
  "remove_excess_connections g self =
     (let connected = get_connected_peers self in
      if int (length connected) \<le> max_connections self then Inr (self, [], g)
      else
        (case random_sample g connected (int (length connected) - max_connections self) of
           Inl e \<Rightarrow> Inl e
         | Inr (to_remove, g') \<Rightarrow>
             Inr (self\<lparr>known_peers := delete_peers to_remove (known_peers self)\<rparr>, to_remove, g')))"

section \<open>Eviction: gradient ring-bucketed\<close>





section \<open>Eviction: static distance buckets\<close>

text \<open>
  \<^verbatim>\<open>DistanceOptimizedPeer(Peer)\<close> and \<^verbatim>\<open>ImprovedDistanceOptimizedPeer(Peer)\<close> add
  the same two fields; they differ in the constructor.
\<close>

record DistanceOptimizedPeer = "PeerInfo Peer" +
  connection_slack :: int
  soft_max_connections :: int

definition DistanceOptimizedPeer_init :: "int \<Rightarrow> int \<Rightarrow> DistanceOptimizedPeer" where
  "DistanceOptimizedPeer_init pid max_conn =
     \<lparr>peer_id = pid, max_connections = max_conn, known_peers = [], pending_invites = [],
      connection_slack = max 2 (max_conn div 4),
      soft_max_connections = max_conn + max 2 (max_conn div 4)\<rparr>"

definition ImprovedDistanceOptimizedPeer_init :: "int \<Rightarrow> int \<Rightarrow> DistanceOptimizedPeer" where
  "ImprovedDistanceOptimizedPeer_init pid max_conn =
     \<lparr>peer_id = pid, max_connections = max_conn, known_peers = [], pending_invites = [],
      connection_slack = max 2 (max_conn div 3),
      soft_max_connections = max_conn + max 2 (max_conn div 3)\<rparr>"

definition get_distance_to_peer :: "('i, 'b) Peer_scheme \<Rightarrow> int \<Rightarrow> int" where
  "get_distance_to_peer self pid = xor_distance (peer_id self) pid"

text \<open>
  \<^verbatim>\<open>int(max_distance * (2 ** -k))\<close>: for \<open>k > 0\<close> the power is a float and the
  product is truncated towards zero; exact for distances below \<open>2 ^ 53\<close>.
\<close>

definition scale_down :: "int \<Rightarrow> nat \<Rightarrow> int" where
  "scale_down max_distance k =
     (if max_distance \<ge> 0 then max_distance div 2 ^ k else - ((- max_distance) div 2 ^ k))"

text \<open>
  \<^verbatim>\<open>max(1, int((weight / total_weight) * total_budget))\<close>. The source computes the
  quotient and the product in binary floating point; the model takes the exact
  quotient. No property proved below depends on the values of the targets.
\<close>

definition normalized_target :: "int \<Rightarrow> int \<Rightarrow> int \<Rightarrow> int" where
  "normalized_target weight total_weight total_budget =
     max 1 ((weight * total_budget) div total_weight)"

text \<open>
  The index of the first range \<open>(bucket_min, bucket_max)\<close> that contains the
  distance: the inner \<^verbatim>\<open>for i, (bucket_min, bucket_max) in enumerate(bucket_ranges)\<close>
  with its \<^verbatim>\<open>break\<close>.
\<close>

fun find_bucket :: "(int \<times> int) list \<Rightarrow> nat \<Rightarrow> int \<Rightarrow> nat option" where
  "find_bucket [] i distance = None"
| "find_bucket ((bucket_min, bucket_max) # rest) i distance =
     (if bucket_min \<le> distance \<and> distance \<le> bucket_max then Some i
      else find_bucket rest (Suc i) distance)"

text \<open>
  \<^verbatim>\<open>calculate_optimal_distribution\<close>. Bucket \<open>i\<close> stands for the key
  \<^verbatim>\<open>f"bucket_{i}"\<close>. For an empty \<^verbatim>\<open>all_peers\<close> the source returns \<^verbatim>\<open>{}\<close>, which
  the caller cannot unpack into three values: \<open>None\<close> here.
\<close>

definition calculate_optimal_distribution ::
  "('i, 'b) Peer_scheme \<Rightarrow> int list
     \<Rightarrow> ((nat \<times> int) list \<times> (nat \<times> int list) list \<times> (int \<times> int) list) option" where
  "calculate_optimal_distribution self all_peers =
     (if all_peers = [] then None
      else
        (let distances = sort_key snd
               (map (\<lambda>pid. (pid, get_distance_to_peer self pid))
                    (filter (\<lambda>pid. pid \<noteq> peer_id self) all_peers));
             max_distance = (case distances of [] \<Rightarrow> 1
                             | d # ds \<Rightarrow> foldl max (snd d) (map snd ds));
             num_buckets = min 8 (length distances);
             bucket_ranges = map (\<lambda>i.
                 (if i = 0 then 0 else scale_down max_distance (num_buckets - 1 - i),
                  if i = num_buckets - 1 then max_distance
                  else scale_down max_distance (num_buckets - 2 - i)))
               [0..<num_buckets];
             buckets = foldl (\<lambda>b (pid, distance).
                           case find_bucket bucket_ranges 0 distance of
                             None \<Rightarrow> b | Some i \<Rightarrow> append_to i pid b)
                         (map (\<lambda>i. (i, [])) [0..<num_buckets]) distances;
             total_budget = max_connections self;
             total_weight = sum_list (map (\<lambda>i. 2 ^ (num_buckets - i - 1)) [0..<num_buckets]);
             bucket_targets = map (\<lambda>i.
                 (i, normalized_target (2 ^ (num_buckets - i - 1)) total_weight total_budget))
               [0..<num_buckets]
         in Some (bucket_targets, buckets, bucket_ranges)))"

text \<open>
  The removals of one bucket: when it holds more than its target, the furthest of
  its peers, furthest first (\<^verbatim>\<open>bucket_peers_with_dist[-(i+1)]\<close> of the list sorted
  by distance).
\<close>

definition bucket_removals :: "('i, 'b) Peer_scheme \<Rightarrow> int list \<Rightarrow> int \<Rightarrow> int list" where
  "bucket_removals self current_peers target_count =
     (if int (length current_peers) > target_count then
        take (nat (min (int (length current_peers) - target_count) (int (length current_peers))))
             (rev (sort_key (get_distance_to_peer self) current_peers))
      else [])"

text \<open>
  The loop \<^verbatim>\<open>for bucket_key, target_count in bucket_targets.items()\<close> of both
  bucketed variants: the removals of the buckets, in the order of the targets.
\<close>

definition bucket_phase ::
  "('i, 'b) Peer_scheme \<Rightarrow> (nat \<times> int list) list \<Rightarrow> (nat \<times> int) list \<Rightarrow> int list" where
  "bucket_phase self current_distribution targets =
     concat (map (\<lambda>(bucket_key, target_count).
                    bucket_removals self (get_list current_distribution bucket_key) target_count)
                 targets)"

text \<open>
  \<^verbatim>\<open>current_distribution\<close> of \<^verbatim>\<open>optimize_connections\<close>: each Connected peer goes to
  the first bucket whose range contains its distance.
\<close>

definition static_current_distribution ::
  "('i, 'b) Peer_scheme \<Rightarrow> (nat \<times> int list) list \<Rightarrow> (int \<times> int) list \<Rightarrow> int list
     \<Rightarrow> (nat \<times> int list) list" where
  "static_current_distribution self buckets bucket_ranges current_connected =
     foldl (\<lambda>cd connected_peer.
              case find_bucket bucket_ranges 0 (get_distance_to_peer self connected_peer) of
                None \<Rightarrow> cd | Some i \<Rightarrow> append_to i connected_peer cd)
           (map (\<lambda>(bucket_key, ps). (bucket_key, [])) buckets) current_connected"

text \<open>\<^verbatim>\<open>DistanceOptimizedPeer.optimize_connections\<close>: the ids to remove.\<close>

definition optimize_connections ::
  "rng \<Rightarrow> (PeerInfo, 'b) Peer_scheme \<Rightarrow> int list \<Rightarrow> error + int list \<times> rng" where
  "optimize_connections g self all_peers =
     (if length all_peers \<le> 1 then Inr ([], g)
      else
        (let current_connected = get_connected_peers self in
         if int (length current_connected) \<le> max_connections self then Inr ([], g)
         else
           (case calculate_optimal_distribution self all_peers of
              None \<Rightarrow>
                random_sample g current_connected
                  (int (length current_connected) - max_connections self)
            | Some (bucket_targets, buckets, bucket_ranges) \<Rightarrow>
                (let current_distribution =
                       static_current_distribution self buckets bucket_ranges current_connected;
                     to_remove = bucket_phase self current_distribution bucket_targets;
                     remaining_excess = int (length current_connected) - max_connections self
                                          - int (length to_remove);
                     bound = nat (int (length current_connected) - max_connections self)
                 in if remaining_excess > 0 then
                      (let remaining_connected =
                             filter (\<lambda>p. p \<notin> set to_remove) current_connected in
                       case random_sample g remaining_connected
                              (min remaining_excess (int (length remaining_connected))) of
                         Inl e \<Rightarrow> Inl e
                       | Inr (additional_removals, g') \<Rightarrow>
                           Inr (take bound (to_remove @ additional_removals), g'))
                    else Inr (take bound to_remove, g)))))"

text \<open>
  \<^verbatim>\<open>for peer_id in to_remove: if peer_id in self.known_peers: del ...\<close> is
  \<open>delete_peers\<close> as well: deleting an absent key changes nothing.

  \<^verbatim>\<open>DistanceOptimizedPeer.remove_excess_connections\<close>; \<open>all_peers = None\<close> is the
  default argument.
\<close>

definition distance_remove_excess_connections ::
  "rng \<Rightarrow> DistanceOptimizedPeer \<Rightarrow> int list option
     \<Rightarrow> error + DistanceOptimizedPeer \<times> int list \<times> rng" where
  "distance_remove_excess_connections g self all_peers =
     (let connected = get_connected_peers self in
      if int (length connected) \<le> soft_max_connections self then Inr (self, [], g)
      else
        (case (case all_peers of
                 None \<Rightarrow> random_sample g connected
                           (min (int (length connected) - max_connections self)
                                (int (length connected)))
               | Some ps \<Rightarrow> optimize_connections g self ps) of
           Inl e \<Rightarrow> Inl e
         | Inr (to_remove, g') \<Rightarrow>
             Inr (self\<lparr>known_peers := delete_peers to_remove (known_peers self)\<rparr>, to_remove, g')))"

section \<open>Eviction: prefix buckets\<close>

text \<open>
  \<^verbatim>\<open>_count_leading_zeros\<close>: 32 for zero, otherwise the number of bit positions
  from 31 downwards that are examined before the first set bit.
\<close>

definition count_leading_zeros :: "int \<Rightarrow> nat" where
  "count_leading_zeros v =
     (if v = 0 then 32 else length (takeWhile (\<lambda>i. \<not> bit v i) (rev [0..<32])))"

definition prefix_bucket :: "('i, 'b) Peer_scheme \<Rightarrow> int \<Rightarrow> nat option" where
  "prefix_bucket self pid =
     (if get_distance_to_peer self pid = 0 then None
      else Some (min (count_leading_zeros (get_distance_to_peer self pid)) 31))"

definition bucket_weight :: "nat \<Rightarrow> int" where
  "bucket_weight bucket_id =
     (if bucket_id \<ge> 24 then 4 else if bucket_id \<ge> 16 then 3 else if bucket_id \<ge> 8 then 2 else 1)"

text \<open>
  \<^verbatim>\<open>calculate_routing_distribution\<close>; \<open>None\<close> where the source returns \<^verbatim>\<open>{}\<close>.
  The second pass scales the targets down by \<^verbatim>\<open>total_budget / total_assigned\<close>.
\<close>

definition calculate_routing_distribution ::
  "('i, 'b) Peer_scheme \<Rightarrow> int list \<Rightarrow> ((nat \<times> int) list \<times> (nat \<times> int list) list) option" where
  "calculate_routing_distribution self all_peers =
     (if all_peers = [] then None
      else
        (let other_peers = filter (\<lambda>pid. pid \<noteq> peer_id self) all_peers in
         if other_peers = [] then None
         else
           (let buckets = foldl (\<lambda>b pid.
                              case prefix_bucket self pid of
                                None \<Rightarrow> b | Some prefix_len \<Rightarrow> append_to prefix_len pid b)
                            (map (\<lambda>prefix_len. (prefix_len, [])) [0..<32]) other_peers;
                total_budget = max_connections self;
                non_empty_buckets = map fst (filter (\<lambda>(k, v). v \<noteq> []) buckets)
            in if non_empty_buckets = [] then None
               else
                 (let total_weight = sum_list (map bucket_weight non_empty_buckets) in
                  if total_weight = 0 then None
                  else
                    (let target_distribution = map (\<lambda>bucket_id.
                             (bucket_id, normalized_target (bucket_weight bucket_id) total_weight total_budget))
                           non_empty_buckets;
                         total_assigned = sum_list (map snd target_distribution)
                     in if total_assigned > total_budget then
                          Some (map (\<lambda>(bucket_id, t).
                                  (bucket_id, normalized_target t total_assigned total_budget))
                                target_distribution, buckets)
                        else Some (target_distribution, buckets))))))"

text \<open>
  \<^verbatim>\<open>current_distribution\<close> of \<^verbatim>\<open>optimize_connections_improved\<close>: each Connected
  peer at a non-zero distance goes to the bucket of its prefix length.
\<close>

definition improved_current_distribution ::
  "('i, 'b) Peer_scheme \<Rightarrow> (nat \<times> int list) list \<Rightarrow> int list \<Rightarrow> (nat \<times> int list) list" where
  "improved_current_distribution self buckets current_connected =
     foldl (\<lambda>cd connected_peer.
              case prefix_bucket self connected_peer of
                None \<Rightarrow> cd
              | Some prefix_len \<Rightarrow>
                  if map_of cd prefix_len \<noteq> None
                  then append_to prefix_len connected_peer cd else cd)
           (map (\<lambda>(bucket_id, ps). (bucket_id, [])) buckets) current_connected"

text \<open>\<^verbatim>\<open>ImprovedDistanceOptimizedPeer.optimize_connections_improved\<close>.\<close>

definition optimize_connections_improved ::
  "rng \<Rightarrow> (PeerInfo, 'b) Peer_scheme \<Rightarrow> int list \<Rightarrow> error + int list \<times> rng" where
  "optimize_connections_improved g self all_peers =
     (let current_connected = get_connected_peers self in
      if int (length current_connected) \<le> max_connections self then Inr ([], g)
      else
        (case calculate_routing_distribution self all_peers of
           None \<Rightarrow>
             random_sample g current_connected
               (min (int (length current_connected) - max_connections self)
                    (int (length current_connected)))
         | Some (target_distribution, buckets) \<Rightarrow>
             if target_distribution = [] then
               random_sample g current_connected
                 (min (int (length current_connected) - max_connections self)
                      (int (length current_connected)))
             else
               (let current_distribution =
                      improved_current_distribution self buckets current_connected;
                    to_remove = bucket_phase self current_distribution target_distribution;
                    current_after_removal = filter (\<lambda>p. p \<notin> set to_remove) current_connected;
                    additional_needed = int (length current_after_removal) - max_connections self
                in if additional_needed > 0 then
                     (case random_sample g current_after_removal
                             (min additional_needed (int (length current_after_removal))) of
                        Inl e \<Rightarrow> Inl e
                      | Inr (additional_removals, g') \<Rightarrow>
                          Inr (to_remove @ additional_removals, g'))
                   else Inr (to_remove, g))))"

text \<open>\<^verbatim>\<open>ImprovedDistanceOptimizedPeer.remove_excess_connections\<close>.\<close>

definition improved_remove_excess_connections ::
  "rng \<Rightarrow> DistanceOptimizedPeer \<Rightarrow> int list option
     \<Rightarrow> error + DistanceOptimizedPeer \<times> int list \<times> rng" where
  "improved_remove_excess_connections g self all_peers =
     (let connected = get_connected_peers self in
      if int (length connected) \<le> soft_max_connections self then Inr (self, [], g)
      else
        (case (case all_peers of
                 None \<Rightarrow> random_sample g connected
                           (min (int (length connected) - max_connections self)
                                (int (length connected)))
               | Some ps \<Rightarrow> optimize_connections_improved g self ps) of
           Inl e \<Rightarrow> Inl e
         | Inr (to_remove, g') \<Rightarrow>
             Inr (self\<lparr>known_peers := delete_peers to_remove (known_peers self)\<rparr>, to_remove, g')))"

section \<open>The buckets of a peer, for the statements about eviction\<close>



text \<open>The same for \<^verbatim>\<open>optimize_connections_improved\<close>; the bucket is \<open>prefix_bucket\<close>.\<close>

definition improved_bucket_removals ::
  "('a PeerInfo_scheme, 'b) Peer_scheme \<Rightarrow> int list \<Rightarrow> int list" where
  "improved_bucket_removals self all_peers =
     (case calculate_routing_distribution self all_peers of
        None \<Rightarrow> []
      | Some (target_distribution, buckets) \<Rightarrow>
          bucket_phase self
            (improved_current_distribution self buckets (get_connected_peers self))
            target_distribution)"

section \<open>Example peers\<close>

text \<open>Peers for the examples: a new peer with the given ids added as Connected, in order.\<close>

definition connect_all :: "(PeerInfo, 'b) Peer_scheme \<Rightarrow> int list \<Rightarrow> (PeerInfo, 'b) Peer_scheme" where
  "connect_all self ids = foldl (\<lambda>p other_id. add_peer p other_id CONNECTED 0) self ids"




definition example_static_dense :: DistanceOptimizedPeer where
  "example_static_dense = connect_all (DistanceOptimizedPeer_init 0 4) [1, 2, 3, 4, 5, 6, 7]"


definition example_improved_dense :: DistanceOptimizedPeer where
  "example_improved_dense = connect_all (ImprovedDistanceOptimizedPeer_init 0 4) [1, 2, 3, 4, 5, 6, 7]"

definition example_static_many :: DistanceOptimizedPeer where
  "example_static_many = connect_all (DistanceOptimizedPeer_init 0 2) [1, 2, 3, 4, 5]"




section \<open>The rounds of the fixed simulator\<close>

text \<open>A loop whose body may raise: the first error ends it.\<close>

fun fold_err :: "('a \<Rightarrow> 's \<Rightarrow> error + 's) \<Rightarrow> 'a list \<Rightarrow> 's \<Rightarrow> error + 's" where
  "fold_err f [] s = Inr s"
| "fold_err f (x # xs) s = (case f x s of Inl e \<Rightarrow> Inl e | Inr s' \<Rightarrow> fold_err f xs s')"

text \<open>
  \<^verbatim>\<open>if receiver_id in self.peers: self.peers[receiver_id].receive_invite(invite)\<close>,
  in phase 2 and in the maintenance step.
\<close>

definition deliver_invite ::
  "(('i, 'b) Peer_scheme) NetworkSimulator \<Rightarrow> int \<Rightarrow> Invite \<Rightarrow> (('i, 'b) Peer_scheme) NetworkSimulator" where
  "deliver_invite sim receiver_id invite =
     (case map_of (peers sim) receiver_id of
        None \<Rightarrow> sim
      | Some receiver \<Rightarrow>
          sim\<lparr>peers := AList.update receiver_id (receive_invite receiver invite) (peers sim)\<rparr>)"

text \<open>\<^verbatim>\<open>Peer.find_closest_peer_to_target\<close> with no excluded states.\<close>

definition find_closest_peer_to_target ::
  "('a PeerInfo_scheme, 'b) Peer_scheme \<Rightarrow> int \<Rightarrow> int option" where
  "find_closest_peer_to_target self target_id =
     min_key (\<lambda>pid. xor_distance pid target_id) (map fst (known_peers self))"

text \<open>
  The starting points of \<^verbatim>\<open>simulate_mapping_request\<close> for a target: the closest known
  peer, if its id is truthy (not \<open>0\<close>) and it is registered, then up to two random
  known peers other than the closest.
\<close>

definition starting_points ::
  "rng \<Rightarrow> (('a PeerInfo_scheme, 'b) Peer_scheme) NetworkSimulator
     \<Rightarrow> ('a PeerInfo_scheme, 'b) Peer_scheme \<Rightarrow> int \<Rightarrow> error + int list \<times> rng" where
  "starting_points g sim peer target_id =
     (let closest_peer_id = find_closest_peer_to_target peer target_id;
          first = (case closest_peer_id of
                     None \<Rightarrow> []
                   | Some c \<Rightarrow> if c \<noteq> 0 \<and> map_of (peers sim) c \<noteq> None then [c] else []);
          all_known = get_all_known_peers peer;
          available_randoms = filter (\<lambda>pid. Some pid \<noteq> closest_peer_id
                                             \<and> map_of (peers sim) pid \<noteq> None) all_known;
          num_random = min 2 (int (length available_randoms))
      in if num_random > 0 then
           (case random_sample g available_randoms num_random of
              Inl e \<Rightarrow> Inl e
            | Inr (random_starts, g') \<Rightarrow> Inr (first @ random_starts, g'))
         else Inr (first, g))"

text \<open>
  \<^verbatim>\<open>NetworkSimulator.simulate_mapping_request\<close>. \<^verbatim>\<open>1 << address_space_bits\<close> raises
  ValueError for a negative count. A response is kept \<^verbatim>\<open>if response:\<close>, that is
  unless it is \<open>0\<close>.
\<close>

definition simulate_mapping_request ::
  "rng \<Rightarrow> (('a PeerInfo_scheme, 'b) Peer_scheme) NetworkSimulator
     \<Rightarrow> ('a PeerInfo_scheme, 'b) Peer_scheme \<Rightarrow> error + int option \<times> rng" where
  "simulate_mapping_request g sim peer =
     (if config_address_space_bits (config sim) < 0 then Inl ValueError
      else
        (case random_randint0 g (2 ^ nat (config_address_space_bits (config sim)) - 1) of
           Inl e \<Rightarrow> Inl e
         | Inr (target_id, g1) \<Rightarrow>
             (case starting_points g1 sim peer target_id of
                Inl e \<Rightarrow> Inl e
              | Inr (starts, g2) \<Rightarrow>
                  if starts = [] then Inr (None, g2)
                  else
                    (let responses = filter (\<lambda>response. response \<noteq> 0)
                           (map (\<lambda>start_id. recursive_search_with_hop_limit sim start_id target_id 10)
                                starts)
                     in if responses = [] then Inr (None, g2)
                        else Inr (min_key (\<lambda>pid. xor_distance pid target_id) responses, g2)))))"

text \<open>
  The body of the phase 1 loop after the mapping request: the transition of the
  peer for the discovered id and the invites appended to \<^verbatim>\<open>invites_to_send\<close>. The
  guard \<^verbatim>\<open>if discovered_peer_id and ...\<close> fails for \<^verbatim>\<open>None\<close> and for \<open>0\<close>; a
  discovered peer in state Pending matches no branch.
\<close>

definition handle_discovery ::
  "((PeerInfo, 'b) Peer_scheme) NetworkSimulator \<Rightarrow> (PeerInfo, 'b) Peer_scheme \<Rightarrow> int option
     \<Rightarrow> (PeerInfo, 'b) Peer_scheme \<times> (int \<times> int) list" where
  "handle_discovery sim peer discovered =
     (case discovered of
        None \<Rightarrow> (peer, [])
      | Some discovered_peer_id \<Rightarrow>
          if discovered_peer_id \<noteq> 0 \<and> discovered_peer_id \<noteq> peer_id peer
             \<and> map_of (peers sim) discovered_peer_id \<noteq> None
          then
            (case get_peer_state peer discovered_peer_id of
               None \<Rightarrow>
                 (set_peer_state peer discovered_peer_id PENDING (round_number sim),
                  [(peer_id peer, discovered_peer_id)])
             | Some IDENTIFIED \<Rightarrow>
                 (set_peer_state peer discovered_peer_id PENDING (round_number sim),
                  [(peer_id peer, discovered_peer_id)])
             | Some PROSPECT \<Rightarrow>
                 (set_peer_state peer discovered_peer_id CONNECTED (round_number sim),
                  [(peer_id peer, discovered_peer_id)])
             | Some CONNECTED \<Rightarrow>
                 (update_last_heard_from peer discovered_peer_id (round_number sim),
                  [(peer_id peer, discovered_peer_id)])
             | Some PENDING \<Rightarrow> (peer, []))
          else (peer, []))"

text \<open>
  One iteration of \<^verbatim>\<open>for peer in self.peers.values()\<close> in phase 1, for the peer
  stored under \<open>key\<close>. The state of the loop is the simulator, \<^verbatim>\<open>invites_to_send\<close>
  and the generator.
\<close>

definition phase1_step ::
  "int \<Rightarrow> ((PeerInfo, 'b) Peer_scheme) NetworkSimulator \<times> (int \<times> int) list \<times> rng
     \<Rightarrow> error + ((PeerInfo, 'b) Peer_scheme) NetworkSimulator \<times> (int \<times> int) list \<times> rng" where
  "phase1_step key st =
     (case st of
        (sim, invites_to_send, g) \<Rightarrow>
          (case map_of (peers sim) key of
             None \<Rightarrow> Inr st
           | Some peer \<Rightarrow>
               (case simulate_mapping_request g sim peer of
                  Inl e \<Rightarrow> Inl e
                | Inr (discovered, g') \<Rightarrow>
                    (case handle_discovery sim peer discovered of
                       (peer', invites) \<Rightarrow>
                         Inr (sim\<lparr>peers := AList.update key peer' (peers sim)\<rparr>,
                              invites_to_send @ invites, g')))))"

text \<open>Phase 2: every queued invite is delivered, stamped with the round.\<close>

definition phase2 ::
  "(('i, 'b) Peer_scheme) NetworkSimulator \<Rightarrow> (int \<times> int) list \<Rightarrow> (('i, 'b) Peer_scheme) NetworkSimulator" where
  "phase2 sim invites_to_send =
     foldl (\<lambda>s (sender, receiver_id).
              deliver_invite s receiver_id \<lparr>sender_id = sender, round_sent = round_number s\<rparr>)
           sim invites_to_send"

text \<open>
  The maintenance block of phase 3 for a peer that has processed its invites:
  with at least two Connected peers, two of them are sampled and each registered
  one receives an invite; otherwise nothing is sent.
\<close>

definition send_maintenance ::
  "rng \<Rightarrow> (('a PeerInfo_scheme, 'b) Peer_scheme) NetworkSimulator \<Rightarrow> ('a PeerInfo_scheme, 'b) Peer_scheme
     \<Rightarrow> error + (('a PeerInfo_scheme, 'b) Peer_scheme) NetworkSimulator \<times> rng" where
  "send_maintenance g sim peer =
     (let connected_peers = get_connected_peers peer in
      if length connected_peers \<ge> 2 then
        (case random_sample g connected_peers 2 of
           Inl e \<Rightarrow> Inl e
         | Inr (selected_peers, g') \<Rightarrow>
             Inr (foldl (\<lambda>s target_id.
                           deliver_invite s target_id
                             \<lparr>sender_id = peer_id peer, round_sent = round_number sim\<rparr>)
                        sim selected_peers, g'))
      else Inr (sim, g))"

text \<open>
  One iteration of the phase 3 loop for the peer stored under \<open>key\<close>: it processes
  its invites, sends its maintenance invites, and removes its excess connections.
  The peer is read from the registry again before the eviction, since the
  maintenance step may have written to the registry.
\<close>

definition phase3_step ::
  "int \<Rightarrow> ((PeerInfo, 'b) Peer_scheme) NetworkSimulator \<times> rng
     \<Rightarrow> error + ((PeerInfo, 'b) Peer_scheme) NetworkSimulator \<times> rng" where
  "phase3_step key st =
     (case st of
        (sim, g) \<Rightarrow>
          (case map_of (peers sim) key of
             None \<Rightarrow> Inr st
           | Some peer \<Rightarrow>
               (let processed = fst (process_invites peer (round_number sim));
                    sim1 = sim\<lparr>peers := AList.update key processed (peers sim)\<rparr>
                in case send_maintenance g sim1 processed of
                     Inl e \<Rightarrow> Inl e
                   | Inr (sim2, g1) \<Rightarrow>
                       (case map_of (peers sim2) key of
                          None \<Rightarrow> Inr (sim2, g1)
                        | Some peer2 \<Rightarrow>
                            (case remove_excess_connections g1 peer2 of
                               Inl e \<Rightarrow> Inl e
                             | Inr (peer3, removed, g2) \<Rightarrow>
                                 Inr (sim2\<lparr>peers := AList.update key peer3 (peers sim2)\<rparr>, g2))))))"

text \<open>
  \<^verbatim>\<open>NetworkSimulator.simulate_round\<close>: the three loops over the registry, in its
  order, and the increment of the round.
\<close>

definition simulate_round ::
  "rng \<Rightarrow> ((PeerInfo, 'b) Peer_scheme) NetworkSimulator
     \<Rightarrow> error + ((PeerInfo, 'b) Peer_scheme) NetworkSimulator \<times> rng" where
  "simulate_round g sim =
     (case fold_err phase1_step (map fst (peers sim)) (sim, [], g) of
        Inl e \<Rightarrow> Inl e
      | Inr (sim1, invites_to_send, g1) \<Rightarrow>
          (case fold_err phase3_step (map fst (peers sim1)) (phase2 sim1 invites_to_send, g1) of
             Inl e \<Rightarrow> Inl e
           | Inr (sim3, g3) \<Rightarrow> Inr (sim3\<lparr>round_number := round_number sim3 + 1\<rparr>, g3)))"

section \<open>Bootstrap of the fixed simulator\<close>

text \<open>
  The \<^verbatim>\<open>while len(generated) < count\<close> loop of \<^verbatim>\<open>_generate_peer_ids\<close>. It runs for
  ever when fewer than \<open>count\<close> ids are left to draw. Once the list of draws is
  used up every draw is \<open>0\<close>, so the loop can add at most the id \<open>0\<close> and then
  never returns: \<open>NoReturn\<close>. The generated set is kept in the order of insertion
  (the order in which Python lists a set is not specified).
\<close>

function generate_peer_ids_loop ::
  "int \<Rightarrow> int \<Rightarrow> int list \<Rightarrow> int list \<Rightarrow> rng \<Rightarrow> error + int list \<times> rng" where
  "generate_peer_ids_loop max_id count exclude generated g =
     (if \<not> int (length generated) < count then Inr (generated, g)
      else
        (case g of
           [] \<Rightarrow>
             if 0 \<notin> set exclude \<and> 0 \<notin> set generated
             then generate_peer_ids_loop max_id count exclude (generated @ [0]) []
             else Inl NoReturn
         | d # g' \<Rightarrow>
             if int d mod (max_id + 1) \<notin> set exclude \<and> int d mod (max_id + 1) \<notin> set generated
             then generate_peer_ids_loop max_id count exclude
                    (generated @ [int d mod (max_id + 1)]) g'
             else generate_peer_ids_loop max_id count exclude generated g'))"
  by pat_completeness auto
termination
  by (relation "measures [\<lambda>(max_id, count, exclude, generated, g). length g,
                          \<lambda>(max_id, count, exclude, generated, g). nat (count - int (length generated))]")
     auto

declare generate_peer_ids_loop.simps [simp del]

text \<open>\<^verbatim>\<open>NetworkSimulator._generate_peer_ids\<close>.\<close>

definition generate_peer_ids ::
  "rng \<Rightarrow> SimulationConfig \<Rightarrow> int \<Rightarrow> int list \<Rightarrow> error + int list \<times> rng" where
  "generate_peer_ids g cfg count exclude =
     (if config_address_space_bits cfg < 0 then Inl ValueError
      else generate_peer_ids_loop (2 ^ nat (config_address_space_bits cfg) - 1) count exclude [] g)"

text \<open>
  The first loop of \<^verbatim>\<open>_initialize_network\<close>: every established member knows every
  other one as Connected since round 0.
\<close>

definition connected_member :: "SimulationConfig \<Rightarrow> int list \<Rightarrow> int \<Rightarrow> PeerInfo Peer" where
  "connected_member cfg connected_ids pid =
     foldl (\<lambda>peer other_id. if other_id \<noteq> pid then add_peer peer other_id CONNECTED 0 else peer)
           (Peer_init pid (max_connections_per_peer cfg)) connected_ids"

text \<open>
  The second loop: a joining peer knows a random sample of the established
  members as Identified.
\<close>

definition add_candidate ::
  "SimulationConfig \<Rightarrow> int list \<Rightarrow> int \<Rightarrow> (int \<times> PeerInfo Peer) list \<times> rng
     \<Rightarrow> error + (int \<times> PeerInfo Peer) list \<times> rng" where
  "add_candidate cfg connected_ids pid st =
     (case st of
        (registry, g) \<Rightarrow>
          (case random_sample g connected_ids
                  (min (initial_identified_peers cfg) (int (length connected_ids))) of
             Inl e \<Rightarrow> Inl e
           | Inr (identified_peers, g') \<Rightarrow>
               Inr (AList.update pid
                      (foldl (\<lambda>peer identified_id. add_peer peer identified_id IDENTIFIED (- 1))
                             (Peer_init pid (max_connections_per_peer cfg)) identified_peers)
                      registry, g')))"

text \<open>\<^verbatim>\<open>NetworkSimulator.__init__\<close> with \<^verbatim>\<open>_initialize_network\<close>.\<close>

definition initialize_network ::
  "rng \<Rightarrow> SimulationConfig \<Rightarrow> error + (PeerInfo Peer) NetworkSimulator \<times> rng" where
  "initialize_network g cfg =
     (case generate_peer_ids g cfg (connected_set_size cfg) [] of
        Inl e \<Rightarrow> Inl e
      | Inr (connected_ids, g1) \<Rightarrow>
          (let registry = foldl (\<lambda>r pid. AList.update pid (connected_member cfg connected_ids pid) r)
                                [] connected_ids
           in case generate_peer_ids g1 cfg (candidate_set_size cfg) connected_ids of
                Inl e \<Rightarrow> Inl e
              | Inr (candidate_ids, g2) \<Rightarrow>
                  (case fold_err (add_candidate cfg connected_ids) candidate_ids (registry, g2) of
                     Inl e \<Rightarrow> Inl e
                   | Inr (registry', g3) \<Rightarrow>
                       Inr (\<lparr>config = cfg, peers = registry',
                             connected_set = set connected_ids,
                             candidate_set = set candidate_ids, round_number = 0\<rparr>, g3))))"

text \<open>
  The states of a run: the bootstrap, followed by any number of rounds.
\<close>

inductive reachable :: "(PeerInfo Peer) NetworkSimulator \<Rightarrow> bool" where
  bootstrap: "initialize_network g cfg = Inr (sim, g') \<Longrightarrow> reachable sim"
| round: "reachable sim \<Longrightarrow> simulate_round g sim = Inr (sim', g') \<Longrightarrow> reachable sim'"
section \<open>Properties of the distance metrics\<close>

lemma xor_distance_sym: "xor_distance a b = xor_distance b a"
  by (simp add: xor_distance_def xor.commute)

lemma xor_distance_zero_iff: "xor_distance a b = 0 \<longleftrightarrow> a = b"
proof
  assume h: "xor_distance a b = 0"
  have "bit a n = bit b n" for n
  proof -
    have "bit (a XOR b) n = bit (0::int) n"
      using h by (simp add: xor_distance_def)
    then show ?thesis by (simp add: bit_xor_iff)
  qed
  then show "a = b" by (simp add: bit_eq_iff)
next
  assume "a = b"
  then show "xor_distance a b = 0" by (simp add: xor_distance_def)
qed

lemma ring_distance_sym: "ring_distance n a b = ring_distance n b a"
  by (simp add: ring_distance_def Let_def abs_minus_commute)

lemma ring_distance_zero_iff:
  assumes "0 \<le> a" "a < n" "0 \<le> b" "b < n"
  shows "ring_distance n a b = 0 \<longleftrightarrow> a = b"
  using assms by (auto simp: ring_distance_def Let_def min_def)

text \<open>
  C9. For both metrics and all ids \<open>a\<close>, \<open>b\<close> of the address space
  \<open>[0, 2 ^ bits)\<close>: the distance is symmetric, and it is zero exactly when
  \<open>a = b\<close> (so the distance of an id to itself is zero).
\<close>

theorem C9_distance_symmetric_zero_iff_equal:
  assumes "0 \<le> a" "a < 2 ^ bits" "0 \<le> b" "b < 2 ^ bits"
  shows "xor_distance a b = xor_distance b a
       \<and> (xor_distance a b = 0 \<longleftrightarrow> a = b)
       \<and> xor_distance a a = 0
       \<and> ring_distance (2 ^ bits) a b = ring_distance (2 ^ bits) b a
       \<and> (ring_distance (2 ^ bits) a b = 0 \<longleftrightarrow> a = b)
       \<and> ring_distance (2 ^ bits) a a = 0"
  using assms ring_distance_zero_iff [of a "2 ^ bits" b] ring_distance_zero_iff [of a "2 ^ bits" a]
  by (simp add: xor_distance_sym xor_distance_zero_iff ring_distance_sym)

theorem C9_witness:
  "(0::int) \<le> 5 \<and> (5::int) < 2 ^ 8 \<and> (0::int) \<le> 250 \<and> (250::int) < 2 ^ 8
   \<and> xor_distance 5 250 = xor_distance 250 5
   \<and> (xor_distance 5 250 = 0 \<longleftrightarrow> (5::int) = 250)
   \<and> xor_distance 5 5 = 0
   \<and> ring_distance (2 ^ 8) 5 250 = ring_distance (2 ^ 8) 250 5
   \<and> (ring_distance (2 ^ 8) 5 250 = 0 \<longleftrightarrow> (5::int) = 250)
   \<and> ring_distance (2 ^ 8) 5 5 = 0"
  using C9_distance_symmetric_zero_iff_equal [of 5 8 250] by simp

section \<open>Invite processing\<close>










lemma known_peers_udcm [simp]: "known_peers (update_distance_class_membership g) = known_peers g"
  by (simp add: update_distance_class_membership_def)
lemma pending_udcm [simp]: "pending_invites (update_distance_class_membership g) = pending_invites g"
  by (simp add: update_distance_class_membership_def)
lemma size_udcm [simp]: "address_space_size (update_distance_class_membership g) = address_space_size g"
  by (simp add: update_distance_class_membership_def)
lemma pid_udcm [simp]: "peer_id (update_distance_class_membership g) = peer_id g"
  by (simp add: update_distance_class_membership_def)








section \<open>The greedy discovery walk\<close>

lemma min_key_from_mem: "min_key_from key best xs \<in> set (best # xs)"
  by (induction xs arbitrary: best) auto

lemma min_key_mem: "min_key key xs = Some m \<Longrightarrow> m \<in> set xs"
  using min_key_from_mem [of key "hd xs" "tl xs"]
  by (cases xs) (auto simp: min_key_def)

lemma xor_walk_hops:
  "(xor_hop sim target)\<^sup>*\<^sup>* start (recursive_search_with_hop_limit sim start target h)"
proof (induction sim start target h rule: recursive_search_with_hop_limit.induct)
  case (1 sim start target h)
  show ?case
  proof (cases "h \<le> 0")
    case True
    then show ?thesis by (simp add: recursive_search_with_hop_limit.simps)
  next
    case h: False
    show ?thesis
    proof (cases "map_of (peers sim) start")
      case None
      with h show ?thesis by (simp add: recursive_search_with_hop_limit.simps)
    next
      case (Some p)
      show ?thesis
      proof (cases "min_key (\<lambda>pid. xor_distance pid target) (get_connected_peers p)")
        case None
        with h Some show ?thesis by (simp add: recursive_search_with_hop_limit.simps)
      next
        case c: (Some c)
        show ?thesis
        proof (cases "xor_distance start target \<le> xor_distance c target")
          case True
          with h Some c show ?thesis by (simp add: recursive_search_with_hop_limit.simps)
        next
          case False
          from min_key_mem [OF c] Some False have "xor_hop sim target start c"
            by (simp add: xor_hop_def)
          moreover from "1.IH" [OF h Some c False]
          have "(xor_hop sim target)\<^sup>*\<^sup>* c (recursive_search_with_hop_limit sim c target (h - 1))" .
          ultimately show ?thesis
            using h Some c False
            by (simp add: recursive_search_with_hop_limit.simps [of sim start])
        qed
      qed
    qed
  qed
qed

lemma xor_hops_closer:
  "(xor_hop sim target)\<^sup>*\<^sup>* a b \<Longrightarrow> xor_distance b target \<le> xor_distance a target"
  by (induction rule: rtranclp_induct) (auto simp: xor_hop_def split: option.splits)

lemma ring_walk_hops:
  "(ring_hop sim target)\<^sup>*\<^sup>* start (gradient_recursive_search sim start target h)"
proof (induction sim start target h rule: gradient_recursive_search.induct)
  case (1 sim start target h)
  show ?case
  proof (cases "h \<le> 0")
    case True
    then show ?thesis by (simp add: gradient_recursive_search.simps)
  next
    case h: False
    show ?thesis
    proof (cases "map_of (peers sim) start")
      case None
      with h show ?thesis by (simp add: gradient_recursive_search.simps)
    next
      case (Some p)
      let ?d = "\<lambda>pid. ring_distance (address_space_size p) pid target"
      show ?thesis
      proof (cases "min_key ?d (get_connected_peers p)")
        case None
        with h Some show ?thesis by (simp add: gradient_recursive_search.simps)
      next
        case c: (Some c)
        show ?thesis
        proof (cases "?d start \<le> ?d c")
          case True
          with h Some c show ?thesis by (simp add: gradient_recursive_search.simps)
        next
          case False
          from min_key_mem [OF c] Some False have "ring_hop sim target start c"
            by (simp add: ring_hop_def)
          moreover from "1.IH" [OF h Some c False]
          have "(ring_hop sim target)\<^sup>*\<^sup>* c (gradient_recursive_search sim c target (h - 1))" .
          ultimately show ?thesis
            using h Some c False
            by (simp add: gradient_recursive_search.simps [of sim start])
        qed
      qed
    qed
  qed
qed

lemma ring_hops_closer:
  assumes "\<forall>p \<in> snd ` set (peers sim). address_space_size p = n"
  shows "(ring_hop sim target)\<^sup>*\<^sup>* a b \<Longrightarrow> ring_distance n b target \<le> ring_distance n a target"
proof (induction rule: rtranclp_induct)
  case base
  then show ?case by simp
next
  case (step y z)
  from step.hyps(2) obtain p where p: "map_of (peers sim) y = Some p"
    and lt: "ring_distance (address_space_size p) z target < ring_distance (address_space_size p) y target"
    by (auto simp: ring_hop_def split: option.splits)
  from p have "(y, p) \<in> set (peers sim)" by (rule map_of_SomeD)
  with assms have "address_space_size p = n" by force
  with lt step.IH show ?case by simp
qed

text \<open>
  C4. For every start node, target and hop budget, the walk reaches its terminal node
  by hops each of which goes from a registered node to one of its Connected peers
  that is strictly closer to the target; so the distance to the target does not
  increase along the walk, and the terminal node is at most as far from the target
  as the start. For the gradient walk the peers share one address space size.
\<close>

theorem C4_greedy_walk_closer:
  assumes "\<forall>p \<in> snd ` set (peers gsim). address_space_size p = n"
  shows "(xor_hop sim target)\<^sup>*\<^sup>* start (recursive_search_with_hop_limit sim start target max_hops)
       \<and> xor_distance (recursive_search_with_hop_limit sim start target max_hops) target
           \<le> xor_distance start target
       \<and> (ring_hop gsim target)\<^sup>*\<^sup>* start (gradient_recursive_search gsim start target max_hops)
       \<and> ring_distance n (gradient_recursive_search gsim start target max_hops) target
           \<le> ring_distance n start target"
  using xor_walk_hops [of sim target start max_hops] ring_walk_hops [of gsim target start max_hops]
    xor_hops_closer ring_hops_closer [OF assms]
  by blast

theorem C4_witness:
  "recursive_search_with_hop_limit example_chain 3 0 10 = 1
   \<and> xor_distance 1 0 \<le> xor_distance 3 0
   \<and> gradient_recursive_search example_ring 3 0 10 = 1
   \<and> ring_distance 256 1 0 \<le> ring_distance 256 3 0"
proof -
  have h: "\<forall>p \<in> snd ` set (peers example_ring). address_space_size p = 256"
    by (simp add: example_ring_def example_gradient_peer_def)
  have a: "recursive_search_with_hop_limit example_chain 3 0 10 = 1"
    by (simp add: recursive_search_with_hop_limit.simps example_chain_def min_key_def
          get_connected_peers_def get_peers_by_state_def add_peer_def Peer_init_def xor_distance_def)
  have b: "gradient_recursive_search example_ring 3 0 10 = 1"
    by (simp add: gradient_recursive_search.simps example_ring_def min_key_def
          get_connected_peers_def get_peers_by_state_def example_gradient_peer_def ring_distance_def)
  from C4_greedy_walk_closer [OF h, of example_chain 0 3 10] a b
  show ?thesis by simp
qed

section \<open>Sampling and uniform-random eviction\<close>

lemma delete_peers_filter:
  "delete_peers ks kp = filter (\<lambda>(k, v). k \<notin> set ks) kp"
proof (induction ks arbitrary: kp)
  case Nil
  then show ?case by (simp add: delete_peers_def)
next
  case (Cons a ks)
  have "delete_peers (a # ks) kp = delete_peers ks (AList.delete a kp)"
    by (simp add: delete_peers_def)
  also have "\<dots> = filter (\<lambda>(k, v). k \<notin> set ks) (filter (\<lambda>(k, v). a \<noteq> k) kp)"
    by (simp add: Cons.IH AList.delete_eq)
  also have "\<dots> = filter (\<lambda>(k, v). k \<notin> set (a # ks)) kp"
    by (auto intro: filter_cong)
  finally show ?case .
qed

lemma get_connected_peers_known:
  "get_connected_peers self = map fst (filter (\<lambda>(pid, i). state i = CONNECTED) (known_peers self))"
  by (simp add: get_connected_peers_def get_peers_by_state_def)

lemma connected_after_delete:
  "map fst (filter (\<lambda>(pid, i). state i = CONNECTED) (delete_peers ks kp))
     = filter (\<lambda>k. k \<notin> set ks) (map fst (filter (\<lambda>(pid, i). state i = CONNECTED) kp))"
  by (induction kp) (auto simp: delete_peers_filter)

lemma get_connected_peers_delete:
  "get_connected_peers (self\<lparr>known_peers := delete_peers ks (known_peers self)\<rparr>)
     = filter (\<lambda>k. k \<notin> set ks) (get_connected_peers self)"
  by (simp add: get_connected_peers_known connected_after_delete)

lemma distinct_connected:
  "distinct (map fst (known_peers self)) \<Longrightarrow> distinct (get_connected_peers self)"
  by (simp add: get_connected_peers_known distinct_map_filter)

lemma length_filter_notin:
  assumes "distinct xs" "distinct ks" "set ks \<subseteq> set xs"
  shows "length (filter (\<lambda>k. k \<notin> set ks) xs) = length xs - length ks"
proof -
  have "length (filter (\<lambda>k. k \<notin> set ks) xs) = card (set (filter (\<lambda>k. k \<notin> set ks) xs))"
    using assms(1) distinct_card [of "filter (\<lambda>k. k \<notin> set ks) xs"] by simp
  also have "set (filter (\<lambda>k. k \<notin> set ks) xs) = set xs - set ks" by auto
  also have "card (set xs - set ks) = card (set xs) - card (set ks)"
    using assms(3) by (simp add: card_Diff_subset)
  finally show ?thesis using assms by (simp add: distinct_card)
qed

lemma sample_loop_props:
  "k \<le> length xs \<Longrightarrow>
     length (fst (sample_loop g xs k)) = k
     \<and> set (fst (sample_loop g xs k)) \<subseteq> set xs
     \<and> (distinct xs \<longrightarrow> distinct (fst (sample_loop g xs k)))"
proof (induction k arbitrary: g xs)
  case 0
  then show ?case by simp
next
  case (Suc k)
  then have ne: "xs \<noteq> []" by auto
  obtain d g' where dr: "draw g = (d, g')" by (cases "draw g")
  let ?i = "d mod length xs"
  let ?rest = "take ?i xs @ drop (Suc ?i) xs"
  have i: "?i < length xs" using ne by simp
  have xs: "xs = take ?i xs @ xs ! ?i # drop (Suc ?i) xs"
    using i by (rule id_take_nth_drop)
  have len: "k \<le> length ?rest" using Suc.prems i by simp
  obtain ch g'' where sl: "sample_loop g' ?rest k = (ch, g'')" by (cases "sample_loop g' ?rest k")
  from Suc.IH [OF len, of g'] sl
  have ih: "length ch = k" "set ch \<subseteq> set ?rest" "distinct ?rest \<longrightarrow> distinct ch" by simp_all
  have sub: "set ?rest \<subseteq> set xs"
    using set_take_subset [of ?i xs] set_drop_subset [of "Suc ?i" xs] by auto
  have mem: "xs ! ?i \<in> set xs" using i by simp
  have d1: "distinct xs \<Longrightarrow> distinct ?rest \<and> xs ! ?i \<notin> set ?rest"
  proof -
    assume "distinct xs"
    then have "distinct (take ?i xs @ xs ! ?i # drop (Suc ?i) xs)" using xs by simp
    then show ?thesis by auto
  qed
  have res: "fst (sample_loop g xs (Suc k)) = xs ! ?i # ch"
    using ne dr sl by simp
  show ?case
    unfolding res using ih sub mem d1 by auto
qed

lemma random_sample_props:
  assumes "random_sample g xs k = Inr (ys, g')"
  shows "int (length ys) = k \<and> set ys \<subseteq> set xs \<and> (distinct xs \<longrightarrow> distinct ys)
         \<and> 0 \<le> k \<and> k \<le> int (length xs)"
proof -
  from assms have k: "0 \<le> k" "k \<le> int (length xs)" and ys: "ys = fst (sample_loop g xs (nat k))"
    by (auto simp: random_sample_def split: if_splits)
  from k have "nat k \<le> length xs" by simp
  from sample_loop_props [OF this, of g] ys k show ?thesis by simp
qed

lemma random_sample_Inr:
  "0 \<le> k \<Longrightarrow> k \<le> int (length xs) \<Longrightarrow> \<exists>ys g'. random_sample g xs k = Inr (ys, g')"
  by (cases "sample_loop g xs (nat k)") (simp add: random_sample_def)

text \<open>Removing \<open>k\<close> distinct Connected peers leaves \<open>N - k\<close>.\<close>

lemma count_after_removal:
  fixes self :: "('a PeerInfo_scheme, 'b) Peer_scheme"
  assumes "distinct (map fst (known_peers self))" "distinct ks" "set ks \<subseteq> set (get_connected_peers self)"
  shows "length (get_connected_peers (self\<lparr>known_peers := delete_peers ks (known_peers self)\<rparr>))
           = length (get_connected_peers self) - length ks"
  using assms by (simp add: get_connected_peers_delete length_filter_notin distinct_connected)



section \<open>Grouping into buckets\<close>

lemma get_list_append_to:
  "get_list (append_to k v d) i = (if i = k then get_list d k @ [v] else get_list d i)"
  by (simp add: get_list_def append_to_def update_conv')

lemma keys_append_to:
  "map_of d k \<noteq> None \<Longrightarrow> map fst (append_to k v d) = map fst d"
  by (auto simp: append_to_def update_keys map_of_eq_None_iff)


lemma get_list_grouping_guarded:
  assumes "\<forall>x i. f x = Some i \<longrightarrow> map_of d i \<noteq> None"
  shows "get_list (foldl (\<lambda>cd x. case f x of None \<Rightarrow> cd
                 | Some i \<Rightarrow> if map_of cd i \<noteq> None then append_to i x cd else cd) d xs) i
     = get_list d i @ filter (\<lambda>x. f x = Some i) xs"
  using assms
proof (induction xs arbitrary: d)
  case Nil
  then show ?case by simp
next
  case (Cons x xs)
  show ?case
  proof (cases "f x")
    case None
    then show ?thesis using Cons.prems by (simp add: Cons.IH)
  next
    case (Some j)
    with Cons.prems have j: "map_of d j \<noteq> None" by blast
    have "\<forall>y i. f y = Some i \<longrightarrow> map_of (append_to j x d) i \<noteq> None"
      using Cons.prems by (simp add: append_to_def update_conv')
    from Cons.IH [OF this] Some j show ?thesis by (simp add: get_list_append_to)
  qed
qed

lemma get_list_empty_init: "get_list (map (\<lambda>(k, ps). (k, [])) bs) i = []"
  by (induction bs) (auto simp: get_list_def)

lemma bucket_removals_subset: "set (bucket_removals self ps t) \<subseteq> set ps"
  by (auto simp: bucket_removals_def dest: in_set_takeD)

lemma bucket_removals_distinct: "distinct ps \<Longrightarrow> distinct (bucket_removals self ps t)"
  by (simp add: bucket_removals_def)

lemma concat_groups_distinct:
  assumes "distinct (map fst ts)"
    and "\<And>k t. (k, t) \<in> set ts \<Longrightarrow> distinct (F k t) \<and> (\<forall>x \<in> set (F k t). x \<in> A \<and> b x = Some k)"
  shows "distinct (concat (map (\<lambda>(k, t). F k t) ts))
         \<and> (\<forall>x \<in> set (concat (map (\<lambda>(k, t). F k t) ts)). x \<in> A \<and> b x \<in> Some ` fst ` set ts)"
  using assms
proof (induction ts)
  case Nil
  then show ?case by simp
next
  case (Cons a ts)
  obtain k t where a: "a = (k, t)" by (cases a)
  let ?rest = "concat (map (\<lambda>(k, t). F k t) ts)"
  from Cons.prems have ih: "distinct ?rest"
    "\<forall>x \<in> set ?rest. x \<in> A \<and> b x \<in> Some ` fst ` set ts"
    using Cons.IH by auto
  from Cons.prems(2) [of k t] a
  have h: "distinct (F k t)" "\<forall>x \<in> set (F k t). x \<in> A \<and> b x = Some k"
    by auto
  from Cons.prems(1) a have k: "k \<notin> fst ` set ts" by auto
  have disj: "set (F k t) \<inter> set ?rest = {}"
  proof (rule ccontr)
    assume "set (F k t) \<inter> set ?rest \<noteq> {}"
    then obtain x where x: "x \<in> set (F k t)" "x \<in> set ?rest" by auto
    from h(2) x(1) have "b x = Some k" by blast
    moreover from ih(2) x(2) have "b x \<in> Some ` fst ` set ts" by blast
    ultimately show False using k by auto
  qed
  have c: "concat (map (\<lambda>(k, t). F k t) (a # ts)) = F k t @ ?rest" using a by simp
  have "distinct (F k t @ ?rest)" using h(1) ih(1) disj by simp
  moreover have "\<forall>x \<in> set (F k t @ ?rest). x \<in> A \<and> b x \<in> Some ` fst ` set (a # ts)"
  proof
    fix x assume "x \<in> set (F k t @ ?rest)"
    then consider "x \<in> set (F k t)" | "x \<in> set ?rest" by auto
    then show "x \<in> A \<and> b x \<in> Some ` fst ` set (a # ts)"
    proof cases
      case 1
      with h(2) have "x \<in> A" "b x = Some k" by blast+
      then show ?thesis using a by simp
    next
      case 2
      with ih(2) have "x \<in> A" "b x \<in> Some ` fst ` set ts" by blast+
      then show ?thesis by auto
    qed
  qed
  ultimately show ?case unfolding c by blast
qed

section \<open>Static distance-bucketed eviction\<close>

lemma bucket_phase_props:
  assumes cd: "\<And>i. get_list cd i = filter (\<lambda>p. b p = Some i) cc"
    and dc: "distinct cc" and dk: "distinct (map fst ts)"
  shows "distinct (bucket_phase self cd ts)
       \<and> (\<forall>x \<in> set (bucket_phase self cd ts). x \<in> set cc \<and> b x \<in> Some ` fst ` set ts)"
proof -
  have "distinct (bucket_removals self (get_list cd k) t)
        \<and> (\<forall>x \<in> set (bucket_removals self (get_list cd k) t). x \<in> set cc \<and> b x = Some k)" for k t
    using bucket_removals_subset [of self "get_list cd k" t]
      bucket_removals_distinct [of "get_list cd k" self t] dc
    by (auto simp: cd)
  from concat_groups_distinct [OF dk, of "\<lambda>k t. bucket_removals self (get_list cd k) t" "set cc" b, OF this]
  show ?thesis by (simp add: bucket_phase_def)
qed







section \<open>Prefix-bucketed eviction\<close>

lemma prefix_bucket_le: "prefix_bucket self p = Some i \<Longrightarrow> i < 32"
  by (auto simp: prefix_bucket_def split: if_splits)

lemma grouping_keys:
  assumes "\<forall>x i. f x = Some i \<longrightarrow> map_of d i \<noteq> None"
  shows "map fst (foldl (\<lambda>cd x. case f x of None \<Rightarrow> cd | Some i \<Rightarrow> append_to i x cd) d xs)
           = map fst d"
  using assms
proof (induction xs arbitrary: d)
  case Nil
  then show ?case by simp
next
  case (Cons x xs)
  show ?case
  proof (cases "f x")
    case None
    then show ?thesis using Cons.prems by (simp add: Cons.IH)
  next
    case (Some j)
    with Cons.prems have j: "map_of d j \<noteq> None" by blast
    have "\<forall>y i. f y = Some i \<longrightarrow> map_of (append_to j x d) i \<noteq> None"
      using Cons.prems by (simp add: append_to_def update_conv')
    from Cons.IH [OF this] Some keys_append_to [OF j, of x] show ?thesis by simp
  qed
qed

lemma map_of_init32: "i < 32 \<Longrightarrow> map_of (map (\<lambda>l. (l, [])) [0..<32]) i = Some []"
  by (simp add: map_of_map_restrict restrict_map_def)

lemma routing_distribution_keys:
  assumes "calculate_routing_distribution self ps = Some (ts, bs)"
  shows "map fst bs = [0..<32] \<and> distinct (map fst ts)"
proof -
  let ?others = "filter (\<lambda>pid. pid \<noteq> peer_id self) ps"
  let ?init = "map (\<lambda>l. (l, [])) [0..<32] :: (nat \<times> int list) list"
  let ?bs = "foldl (\<lambda>b pid. case prefix_bucket self pid of None \<Rightarrow> b
                 | Some prefix_len \<Rightarrow> append_to prefix_len pid b) ?init ?others"
  have "\<forall>x i. prefix_bucket self x = Some i \<longrightarrow> map_of ?init i \<noteq> None"
    using prefix_bucket_le map_of_init32 by fastforce
  from grouping_keys [OF this, of ?others]
  have keys: "map fst ?bs = [0..<32]" by (simp add: comp_def)
  then have dk: "distinct (map fst ?bs)" by simp
  have dne: "distinct (map fst (filter P ?bs))" for P
    using dk by (rule distinct_map_filter)
  from assms have bs: "bs = ?bs"
    by (auto simp: calculate_routing_distribution_def Let_def split: if_splits)
  from assms have "map fst ts = map fst (filter (\<lambda>(k, v). v \<noteq> []) ?bs)"
    by (auto simp: calculate_routing_distribution_def Let_def comp_def split: if_splits
          intro!: map_idI map_cong)
  with dne keys bs show ?thesis by simp
qed

lemma improved_distribution_groups:
  assumes "map fst bs = [0..<32]"
  shows "get_list (improved_current_distribution self bs cc) i
           = filter (\<lambda>p. prefix_bucket self p = Some i) cc"
proof -
  let ?init = "map (\<lambda>(k, ps). (k, [])) bs :: (nat \<times> int list) list"
  have "map fst ?init = [0..<32]" using assms by (simp add: comp_def case_prod_unfold)
  then have "\<forall>i < 32. i \<in> fst ` set ?init"
    by (metis atLeast0LessThan lessThan_iff list.set_map set_upt)
  then have "\<forall>x i. prefix_bucket self x = Some i \<longrightarrow> map_of ?init i \<noteq> None"
    using prefix_bucket_le by (metis map_of_eq_None_iff)
  from get_list_grouping_guarded [OF this, of cc i]
  show ?thesis by (simp add: improved_current_distribution_def get_list_empty_init)
qed

lemma improved_bucket_removals_props:
  fixes self :: "('a PeerInfo_scheme, 'b) Peer_scheme"
  assumes "distinct (get_connected_peers self)"
  shows "distinct (improved_bucket_removals self ps)
       \<and> set (improved_bucket_removals self ps) \<subseteq> set (get_connected_peers self)"
proof (cases "calculate_routing_distribution self ps")
  case None
  then show ?thesis by (simp add: improved_bucket_removals_def)
next
  case (Some a)
  obtain ts bs where a: "a = (ts, bs)" by (cases a)
  from routing_distribution_keys [of self ps ts bs] Some a
  have k: "map fst bs = [0..<32]" "distinct (map fst ts)" by simp_all
  from bucket_phase_props [of "improved_current_distribution self bs (get_connected_peers self)"
      "prefix_bucket self" "get_connected_peers self" ts self,
      OF improved_distribution_groups [OF k(1)] assms k(2)] Some a
  show ?thesis by (auto simp: improved_bucket_removals_def)
qed


lemma fallback_sample:
  assumes dc: "distinct cc" and m0: "0 \<le> m" and ex: "m < int (length cc)"
  shows "\<exists>R g'. random_sample g cc (min (int (length cc) - m) (int (length cc))) = Inr (R, g')
        \<and> R = fst (sample_loop g cc (nat (int (length cc) - m)))
        \<and> distinct R \<and> set R \<subseteq> set cc \<and> int (length R) = int (length cc) - m"
proof -
  let ?k = "min (int (length cc) - m) (int (length cc))"
  have k: "?k = int (length cc) - m" using m0 by simp
  obtain R g' where sl: "sample_loop g cc (nat ?k) = (R, g')" by (cases "sample_loop g cc (nat ?k)")
  have s: "random_sample g cc ?k = Inr (R, g')"
    using m0 ex sl by (simp add: random_sample_def)
  from random_sample_props [OF s] dc k sl show ?thesis
    using s by (simp del: min.absorb1 min.absorb2 min.absorb3 min.absorb4)
qed

lemma improved_result:
  fixes self :: "(PeerInfo, 'b) Peer_scheme"
  assumes dc: "distinct (get_connected_peers self)"
    and m0: "0 \<le> max_connections self"
    and ex: "max_connections self < int (length (get_connected_peers self))"
  shows "\<exists>R g'. optimize_connections_improved g self ps = Inr (R, g')
        \<and> distinct R \<and> set R \<subseteq> set (get_connected_peers self)
        \<and> int (length (get_connected_peers self)) - int (length R) \<le> max_connections self
        \<and> (int (length (get_connected_peers self)) - int (length (improved_bucket_removals self ps))
              \<le> max_connections self \<longrightarrow> R = improved_bucket_removals self ps)
        \<and> (calculate_routing_distribution self ps = None \<longrightarrow>
              R = fst (sample_loop g (get_connected_peers self)
                    (nat (int (length (get_connected_peers self)) - max_connections self)))
              \<and> int (length R) = int (length (get_connected_peers self)) - max_connections self)"
proof -
  let ?cc = "get_connected_peers self"
  let ?T = "improved_bucket_removals self ps"
  let ?m = "max_connections self"
  from fallback_sample [OF dc m0 ex, of g] obtain R0 g0 where
    fb: "random_sample g ?cc (min (int (length ?cc) - ?m) (int (length ?cc))) = Inr (R0, g0)"
      "R0 = fst (sample_loop g ?cc (nat (int (length ?cc) - ?m)))"
      "distinct R0" "set R0 \<subseteq> set ?cc" "int (length R0) = int (length ?cc) - ?m"
    by blast
  from improved_bucket_removals_props [OF dc, of ps]
  have T: "distinct ?T" "set ?T \<subseteq> set ?cc" by simp_all
  have lenT: "length ?T \<le> length ?cc"
    using T dc by (metis card_mono distinct_card List.finite_set)
  let ?rem = "filter (\<lambda>p. p \<notin> set ?T) ?cc"
  have lrem: "length ?rem = length ?cc - length ?T"
    using length_filter_notin [OF dc T] .
  show ?thesis
  proof (cases "calculate_routing_distribution self ps")
    case None
    then have "optimize_connections_improved g self ps = Inr (R0, g0)"
      using ex fb(1) by (simp add: optimize_connections_improved_def Let_def)
    moreover have "?T = []" using None by (simp add: improved_bucket_removals_def)
    ultimately show ?thesis using fb ex None by auto
  next
    case (Some a)
    obtain ts bs where a: "a = (ts, bs)" by (cases a)
    show ?thesis
    proof (cases "ts = []")
      case True
      then have "optimize_connections_improved g self ps = Inr (R0, g0)"
        using ex fb(1) Some a by (simp add: optimize_connections_improved_def Let_def)
      moreover have "?T = []"
        using Some a True by (simp add: improved_bucket_removals_def bucket_phase_def)
      ultimately show ?thesis using fb ex Some by auto
    next
      case ne: False
      have Teq: "bucket_phase self (improved_current_distribution self bs ?cc) ts = ?T"
        using Some a by (simp add: improved_bucket_removals_def)
      have unfold: "optimize_connections_improved g self ps =
        (if int (length ?rem) - ?m > 0 then
           (case random_sample g ?rem (min (int (length ?rem) - ?m) (int (length ?rem))) of
              Inl e \<Rightarrow> Inl e | Inr (A, g') \<Rightarrow> Inr (?T @ A, g'))
         else Inr (?T, g))"
        using ex Some a ne
        by (simp add: optimize_connections_improved_def Let_def Teq split: sum.splits)
      show ?thesis
      proof (cases "int (length ?rem) - ?m > 0")
        case True
        let ?k = "min (int (length ?rem) - ?m) (int (length ?rem))"
        have k: "?k = int (length ?rem) - ?m" using m0 by simp
        from True k have "0 \<le> ?k" "?k \<le> int (length ?rem)" by simp_all
        from random_sample_Inr [OF this, of g] obtain A g' where
          s: "random_sample g ?rem ?k = Inr (A, g')" by blast
        from random_sample_props [OF s] dc
        have A: "int (length A) = ?k" "set A \<subseteq> set ?rem" "distinct A" by simp_all
        have R: "optimize_connections_improved g self ps = Inr (?T @ A, g')"
          using True s unfolding unfold by simp
        have "distinct (?T @ A)" using T(1) A(2,3) by auto
        moreover have "set (?T @ A) \<subseteq> set ?cc" using T(2) A(2) by auto
        moreover have "int (length ?cc) - int (length (?T @ A)) \<le> ?m"
          using A(1) k lrem lenT by simp
        moreover have "\<not> int (length ?cc) - int (length ?T) \<le> ?m"
          using True lrem lenT by simp
        ultimately show ?thesis using R Some by auto
      next
        case False
        then have R: "optimize_connections_improved g self ps = Inr (?T, g)"
          unfolding unfold by simp
        have "int (length ?cc) - int (length ?T) \<le> ?m" using False lrem lenT by simp
        then show ?thesis using R T Some by auto
      qed
    qed
  qed
qed

section \<open>Order of the removals within a bucket\<close>





section \<open>Eviction by the bucketed variants\<close>


lemma improved_remove_excess:
  assumes dk: "distinct (map fst (known_peers s))"
    and m0: "0 \<le> max_connections s" and ms: "max_connections s \<le> soft_max_connections s"
  shows "\<exists>s' R g'. improved_remove_excess_connections g s (Some ps) = Inr (s', R, g')
      \<and> get_connected_peers s' = filter (\<lambda>p. p \<notin> set R) (get_connected_peers s)
      \<and> set R \<subseteq> set (get_connected_peers s)
      \<and> int (length (get_connected_peers s')) \<le> soft_max_connections s
      \<and> (soft_max_connections s < int (length (get_connected_peers s)) \<longrightarrow>
           int (length (get_connected_peers s')) \<le> max_connections s
           \<and> (int (length (get_connected_peers s)) - int (length (improved_bucket_removals s ps))
                 \<le> max_connections s \<longrightarrow> R = improved_bucket_removals s ps)
           \<and> (calculate_routing_distribution s ps = None \<longrightarrow>
                 R = fst (sample_loop g (get_connected_peers s)
                       (nat (int (length (get_connected_peers s)) - max_connections s)))
                 \<and> int (length R) = int (length (get_connected_peers s)) - max_connections s
                 \<and> int (length (get_connected_peers s')) = max_connections s))"
proof (cases "int (length (get_connected_peers s)) \<le> soft_max_connections s")
  case True
  then show ?thesis by (simp add: improved_remove_excess_connections_def)
next
  case False
  let ?cc = "get_connected_peers s"
  from False ms have ex: "max_connections s < int (length ?cc)" by simp
  note dc = distinct_connected [OF dk]
  from improved_result [OF dc m0 ex, of g ps] obtain R g' where
    R: "optimize_connections_improved g s ps = Inr (R, g')" "distinct R" "set R \<subseteq> set ?cc"
      "int (length ?cc) - int (length R) \<le> max_connections s"
      "int (length ?cc) - int (length (improved_bucket_removals s ps)) \<le> max_connections s
         \<longrightarrow> R = improved_bucket_removals s ps"
      "calculate_routing_distribution s ps = None \<longrightarrow>
         R = fst (sample_loop g ?cc (nat (int (length ?cc) - max_connections s)))
         \<and> int (length R) = int (length ?cc) - max_connections s"
    by (elim exE conjE) (rule that; assumption)
  let ?s' = "s\<lparr>known_peers := delete_peers R (known_peers s)\<rparr>"
  have res: "improved_remove_excess_connections g s (Some ps) = Inr (?s', R, g')"
    using False R(1) by (simp add: improved_remove_excess_connections_def)
  have cc': "get_connected_peers ?s' = filter (\<lambda>p. p \<notin> set R) ?cc"
    by (rule get_connected_peers_delete)
  have len: "length (get_connected_peers ?s') = length ?cc - length R"
    using count_after_removal [OF dk R(2) R(3)] .
  have lR: "length R \<le> length ?cc"
    using R(2,3) dc by (metis card_mono distinct_card List.finite_set)
  from len lR R(4) have cnt: "int (length (get_connected_peers ?s')) \<le> max_connections s" by simp
  have cnt2: "calculate_routing_distribution s ps = None \<longrightarrow>
                int (length (get_connected_peers ?s')) = max_connections s"
    using len lR R(6) by auto
  show ?thesis using res cc' R(3) R(5) R(6) cnt cnt2 ms by auto
qed




lemma improved_dense_limits:
  "max_connections example_improved_dense = 4 \<and> soft_max_connections example_improved_dense = 6"
  by code_simp



lemma routing_distribution_degenerate:
  "set qs \<subseteq> {peer_id self} \<Longrightarrow> calculate_routing_distribution self qs = None"
proof -
  assume "set qs \<subseteq> {peer_id self}"
  then have "filter (\<lambda>pid. pid \<noteq> peer_id self) qs = []"
    by (auto simp: filter_empty_conv)
  then show ?thesis by (simp add: calculate_routing_distribution_def Let_def)
qed

lemma improved_remove_excess_default:
  assumes dk: "distinct (map fst (known_peers s))"
    and m0: "0 \<le> max_connections s" and ms: "max_connections s \<le> soft_max_connections s"
    and tr: "soft_max_connections s < int (length (get_connected_peers s))"
  shows "\<exists>s' R g'. improved_remove_excess_connections g s None = Inr (s', R, g')
      \<and> R = fst (sample_loop g (get_connected_peers s)
                (nat (int (length (get_connected_peers s)) - max_connections s)))
      \<and> int (length R) = int (length (get_connected_peers s)) - max_connections s
      \<and> int (length (get_connected_peers s')) = max_connections s"
proof -
  let ?cc = "get_connected_peers s"
  from tr ms have ex: "max_connections s < int (length ?cc)" by simp
  note dc = distinct_connected [OF dk]
  from fallback_sample [OF dc m0 ex, of g] obtain R g' where
    R: "random_sample g ?cc (min (int (length ?cc) - max_connections s) (int (length ?cc))) = Inr (R, g')"
      "R = fst (sample_loop g ?cc (nat (int (length ?cc) - max_connections s)))"
      "distinct R" "set R \<subseteq> set ?cc" "int (length R) = int (length ?cc) - max_connections s"
    by blast
  let ?s' = "s\<lparr>known_peers := delete_peers R (known_peers s)\<rparr>"
  have res: "improved_remove_excess_connections g s None = Inr (?s', R, g')"
    using tr R(1) by (simp add: improved_remove_excess_connections_def)
  have "length (get_connected_peers ?s') = length ?cc - length R"
    using count_after_removal [OF dk R(3) R(4)] .
  with R(5) m0 have "int (length (get_connected_peers ?s')) = max_connections s" by simp
  with res R(2,5) show ?thesis by blast
qed

lemma static_remove_excess_default:
  assumes dk: "distinct (map fst (known_peers s))"
    and m0: "0 \<le> max_connections s" and ms: "max_connections s \<le> soft_max_connections s"
    and tr: "soft_max_connections s < int (length (get_connected_peers s))"
  shows "\<exists>s' R g'. distance_remove_excess_connections g s None = Inr (s', R, g')
      \<and> R = fst (sample_loop g (get_connected_peers s)
                (nat (int (length (get_connected_peers s)) - max_connections s)))
      \<and> int (length R) = int (length (get_connected_peers s)) - max_connections s
      \<and> int (length (get_connected_peers s')) = max_connections s"
proof -
  let ?cc = "get_connected_peers s"
  from tr ms have ex: "max_connections s < int (length ?cc)" by simp
  note dc = distinct_connected [OF dk]
  from fallback_sample [OF dc m0 ex, of g] obtain R g' where
    R: "random_sample g ?cc (min (int (length ?cc) - max_connections s) (int (length ?cc))) = Inr (R, g')"
      "R = fst (sample_loop g ?cc (nat (int (length ?cc) - max_connections s)))"
      "distinct R" "set R \<subseteq> set ?cc" "int (length R) = int (length ?cc) - max_connections s"
    by blast
  let ?s' = "s\<lparr>known_peers := delete_peers R (known_peers s)\<rparr>"
  have res: "distance_remove_excess_connections g s None = Inr (?s', R, g')"
    using tr R(1) by (simp add: distance_remove_excess_connections_def)
  have "length (get_connected_peers ?s') = length ?cc - length R"
    using count_after_removal [OF dk R(3) R(4)] .
  with R(5) m0 have "int (length (get_connected_peers ?s')) = max_connections s" by simp
  with res R(2,5) show ?thesis by blast
qed

lemma static_few_peers:
  "length ps \<le> 1 \<Longrightarrow> soft_max_connections s < int (length (get_connected_peers s)) \<Longrightarrow>
   distance_remove_excess_connections g s (Some ps) = Inr (s, [], g)"
  by (simp add: distance_remove_excess_connections_def optimize_connections_def delete_peers_def)

text \<open>
  C6 (amended). Let the Connected count \<open>N\<close> of a peer with \<open>0 \<le> max_connections\<close>
  exceed the soft limit. In the prefix variant a degenerate bucket computation
  (\<open>all_peers\<close> holds no id other than the peer's own) falls back to removing
  exactly \<open>N - max_connections\<close> Connected peers, a random sample of them, and does
  not raise; so do both variants when \<open>all_peers\<close> is not passed. The static
  variant given fewer than two ids in \<open>all_peers\<close> removes nothing.
\<close>

theorem C6_degenerate_fallback:
  fixes s i :: DistanceOptimizedPeer
  assumes "distinct (map fst (known_peers i))" "0 \<le> max_connections i"
    and "max_connections i \<le> soft_max_connections i"
    and "soft_max_connections i < int (length (get_connected_peers i))"
    and "set qs \<subseteq> {peer_id i}"
    and "distinct (map fst (known_peers s))" "0 \<le> max_connections s"
    and "max_connections s \<le> soft_max_connections s"
    and "soft_max_connections s < int (length (get_connected_peers s))"
    and "length ps \<le> 1"
  shows "(\<exists>i' R g'. improved_remove_excess_connections g i (Some qs) = Inr (i', R, g')
           \<and> R = fst (sample_loop g (get_connected_peers i)
                     (nat (int (length (get_connected_peers i)) - max_connections i)))
           \<and> int (length R) = int (length (get_connected_peers i)) - max_connections i
           \<and> int (length (get_connected_peers i')) = max_connections i)
       \<and> (\<exists>i' R g'. improved_remove_excess_connections g i None = Inr (i', R, g')
           \<and> R = fst (sample_loop g (get_connected_peers i)
                     (nat (int (length (get_connected_peers i)) - max_connections i)))
           \<and> int (length R) = int (length (get_connected_peers i)) - max_connections i
           \<and> int (length (get_connected_peers i')) = max_connections i)
       \<and> (\<exists>s' R g'. distance_remove_excess_connections g s None = Inr (s', R, g')
           \<and> R = fst (sample_loop g (get_connected_peers s)
                     (nat (int (length (get_connected_peers s)) - max_connections s)))
           \<and> int (length R) = int (length (get_connected_peers s)) - max_connections s
           \<and> int (length (get_connected_peers s')) = max_connections s)
       \<and> distance_remove_excess_connections g s (Some ps) = Inr (s, [], g)"
proof (intro conjI)
  note none = routing_distribution_degenerate [OF assms(5)]
  from improved_remove_excess [OF assms(1,2,3), of g qs] obtain i' R g' where
    r1: "improved_remove_excess_connections g i (Some qs) = Inr (i', R, g')"
    and r0: "soft_max_connections i < int (length (get_connected_peers i)) \<longrightarrow>
      int (length (get_connected_peers i')) \<le> max_connections i
      \<and> (int (length (get_connected_peers i)) - int (length (improved_bucket_removals i qs))
            \<le> max_connections i \<longrightarrow> R = improved_bucket_removals i qs)
      \<and> (calculate_routing_distribution i qs = None \<longrightarrow>
             R = fst (sample_loop g (get_connected_peers i)
                   (nat (int (length (get_connected_peers i)) - max_connections i)))
             \<and> int (length R) = int (length (get_connected_peers i)) - max_connections i
             \<and> int (length (get_connected_peers i')) = max_connections i)"
    by (elim exE conjE) (rule that; assumption)
  from r0 assms(4) none
  have f: "R = fst (sample_loop g (get_connected_peers i)
                     (nat (int (length (get_connected_peers i)) - max_connections i)))"
    "int (length R) = int (length (get_connected_peers i)) - max_connections i"
    "int (length (get_connected_peers i')) = max_connections i"
    by blast+
  from r1 f
  show "\<exists>i' R g'. improved_remove_excess_connections g i (Some qs) = Inr (i', R, g')
           \<and> R = fst (sample_loop g (get_connected_peers i)
                     (nat (int (length (get_connected_peers i)) - max_connections i)))
           \<and> int (length R) = int (length (get_connected_peers i)) - max_connections i
           \<and> int (length (get_connected_peers i')) = max_connections i"
    by blast
next
  show "\<exists>i' R g'. improved_remove_excess_connections g i None = Inr (i', R, g')
           \<and> R = fst (sample_loop g (get_connected_peers i)
                     (nat (int (length (get_connected_peers i)) - max_connections i)))
           \<and> int (length R) = int (length (get_connected_peers i)) - max_connections i
           \<and> int (length (get_connected_peers i')) = max_connections i"
    by (rule improved_remove_excess_default [OF assms(1,2,3,4)])
next
  show "\<exists>s' R g'. distance_remove_excess_connections g s None = Inr (s', R, g')
           \<and> R = fst (sample_loop g (get_connected_peers s)
                     (nat (int (length (get_connected_peers s)) - max_connections s)))
           \<and> int (length R) = int (length (get_connected_peers s)) - max_connections s
           \<and> int (length (get_connected_peers s')) = max_connections s"
    by (rule static_remove_excess_default [OF assms(6,7,8,9)])
next
  show "distance_remove_excess_connections g s (Some ps) = Inr (s, [], g)"
    by (rule static_few_peers [OF assms(10) assms(9)])
qed

theorem C6_witness:
  "map_sum id (\<lambda>(s', R, g'). (int (length (get_connected_peers s')), R))
     (improved_remove_excess_connections [] example_improved_dense (Some [0]))
     = Inr (4, [1, 2, 3])
   \<and> distance_remove_excess_connections [] example_static_dense (Some [])
     = Inr (example_static_dense, [], [])"
proof -
  let ?s = example_static_dense and ?i = example_improved_dense
  have h: "distinct (map fst (known_peers ?i))" "0 \<le> max_connections ?i"
    "max_connections ?i \<le> soft_max_connections ?i"
    "soft_max_connections ?i < int (length (get_connected_peers ?i))"
    "set [0] \<subseteq> {peer_id ?i}"
    "distinct (map fst (known_peers ?s))" "0 \<le> max_connections ?s"
    "max_connections ?s \<le> soft_max_connections ?s"
    "soft_max_connections ?s < int (length (get_connected_peers ?s))"
    "length ([] :: int list) \<le> 1"
    by code_simp+
  have sl: "fst (sample_loop [] (get_connected_peers ?i)
              (nat (int (length (get_connected_peers ?i)) - max_connections ?i))) = [1, 2, 3]"
    by code_simp
  from C6_degenerate_fallback [OF h, of "[]"] obtain i' R g' where
    r: "improved_remove_excess_connections [] ?i (Some [0]) = Inr (i', R, g')"
      "R = fst (sample_loop [] (get_connected_peers ?i)
              (nat (int (length (get_connected_peers ?i)) - max_connections ?i)))"
      "int (length (get_connected_peers i')) = max_connections ?i"
    and s: "distance_remove_excess_connections [] ?s (Some []) = Inr (?s, [], [])"
    by (elim exE conjE) (rule that; assumption)
  from r sl s show ?thesis by (simp add: improved_dense_limits)
qed

theorem C6_counterexample:
  "soft_max_connections example_static_many < int (length (get_connected_peers example_static_many))
   \<and> calculate_optimal_distribution example_static_many [] = None
   \<and> int (length (get_connected_peers example_static_many)) - max_connections example_static_many = 3
   \<and> distance_remove_excess_connections [7, 8, 9] example_static_many (Some [])
       = Inr (example_static_many, [], [7, 8, 9])"
  by code_simp

section \<open>Gradient eviction\<close>



















end
